theory Spec2Isabelle
  imports Main "HOL-Library.Word"
begin

section \<open>Platform, faults and global state\<close>

text \<open>
  The program is one C file, \<^verbatim>\<open>main.c\<close>. Two properties of the C implementation
  it is compiled for matter to its behaviour and are parameters of the model:
  whether plain \<^verbatim>\<open>char\<close> is signed (it is on x86 Linux, it is not on ARM Linux), and the
  byte order in which the kernel lays out the integers of a netlink datagram.
\<close>

record platform =
  char_signed :: bool
  big_endian :: bool

text \<open>
  An access outside an object is undefined behaviour in C. The model stops there with a
  fault that names the object and the index of the access: an index into
  \<^verbatim>\<open>cmdlinebuf\<close>, or a byte offset into the receive buffer.
\<close>

datatype fault = CmdlineOutOfBounds nat | RcvbufOutOfBounds nat

text \<open>
  The globals of \<^verbatim>\<open>main.c\<close> that the event path uses: \<^verbatim>\<open>char procname[50]\<close> (held as
  the C string that \<^verbatim>\<open>sprintf\<close> stores; at most 25 characters and the terminator),
  \<^verbatim>\<open>char cmdlinebuf[4096]\<close> (all of its bytes), \<^verbatim>\<open>ssize_t bytes\<close>, and the bytes written
  to the unbuffered standard output so far.
\<close>

record globals =
  procname :: string
  cmdlinebuf :: "char list"
  bytes :: int
  stdout :: string

type_synonym byte = "8 word"

definition CMDLINE_SIZE :: nat where
  "CMDLINE_SIZE = 4096"

definition NUL :: char where
  "NUL = CHR 0x00"

definition SPACE :: char where
  "SPACE = CHR 0x20"

definition NEWLINE :: char where
  "NEWLINE = CHR 0x0A"

definition init_globals :: globals where
  "init_globals =
     \<lparr>procname = [], cmdlinebuf = replicate CMDLINE_SIZE NUL, bytes = 0, stdout = []\<rparr>"

definition bnd :: "fault + 'a \<Rightarrow> ('a \<Rightarrow> fault + 'b) \<Rightarrow> fault + 'b" where
  "bnd m f = (case m of Inl e \<Rightarrow> Inl e | Inr x \<Rightarrow> f x)"

section \<open>printf conversions\<close>

text \<open>The \<^verbatim>\<open>%d\<close> conversion: decimal digits, with a minus sign for a negative value.\<close>

fun show_nat :: "nat \<Rightarrow> string" where
  "show_nat n =
     (if n < 10 then [''0123456789'' ! n]
      else show_nat (n div 10) @ [''0123456789'' ! (n mod 10)])"

declare show_nat.simps [simp del]

definition show_int :: "int \<Rightarrow> string" where
  "show_int i = (if i < 0 then CHR ''-'' # show_nat (nat (- i)) else show_nat (nat i))"

text \<open>
  The \<^verbatim>\<open>%s\<close> conversion applied to an array: the bytes before the first NUL. With no
  NUL in the array the read runs off its end.
\<close>

definition c_str :: "char list \<Rightarrow> fault + string" where
  "c_str buf =
     (if NUL \<in> set buf then Inr (takeWhile (\<lambda>c. c \<noteq> NUL) buf)
      else Inl (CmdlineOutOfBounds (length buf)))"

section \<open>The command-line resolver\<close>

text \<open>
  What \<^verbatim>\<open>open\<close> and \<^verbatim>\<open>read\<close> do is the environment's choice, per path: \<^verbatim>\<open>open\<close> fails
  (returns -1), or it succeeds and the one \<^verbatim>\<open>read\<close> either fails (returns -1, stores
  nothing) or delivers bytes of the file. \<^verbatim>\<open>read(fd, cmdlinebuf, 4096)\<close> stores at most
  4096 of them.
\<close>

datatype read_result = ReadFails | ReadData "char list"

datatype open_result = OpenFails | OpenOk read_result

type_synonym procfs = "string \<Rightarrow> open_result"

text \<open>The value of a \<^verbatim>\<open>char\<close> object after integer promotion, as \<^verbatim>\<open>*c < 32\<close> sees it.\<close>

definition char_value :: "platform \<Rightarrow> char \<Rightarrow> int" where
  "char_value pf c =
     (let v = (of_char c :: nat)
      in if char_signed pf \<and> 128 \<le> v then int v - 256 else int v)"

text \<open>
  \<^verbatim>\<open>bytes = read(fd, cmdlinebuf, 4096)\<close>: the new contents of the buffer and the value
  returned.
\<close>

definition read_cmdline :: "read_result \<Rightarrow> char list \<Rightarrow> char list \<times> int" where
  "read_cmdline r buf =
     (case r of
        ReadFails \<Rightarrow> (buf, - 1)
      | ReadData cs \<Rightarrow>
          (let got = take CMDLINE_SIZE cs
           in (got @ drop (length got) buf, int (length got))))"

text \<open>
  The loop
  \<^verbatim>\<open>for (c=cmdlinebuf, remain=bytes; remain>0; c++, remain--) if (*c < 32) *c = ' ';\<close>
  with \<open>c\<close> held as an index into \<^verbatim>\<open>cmdlinebuf\<close>. It returns the buffer and the final
  \<open>c\<close>.
\<close>

function sanitize_loop :: "platform \<Rightarrow> char list \<Rightarrow> nat \<Rightarrow> int \<Rightarrow> fault + (char list \<times> nat)" where
  "sanitize_loop pf buf c remain =
     (if remain > 0 then
        (if c < length buf then
           sanitize_loop pf (if char_value pf (buf ! c) < 32 then buf[c := SPACE] else buf)
             (c + 1) (remain - 1)
         else Inl (CmdlineOutOfBounds c))
      else Inr (buf, c))"
  by pat_completeness auto
termination
  by (relation "measure (\<lambda>(pf, buf, c, remain). nat remain)") auto

declare sanitize_loop.simps [simp del]

text \<open>\<^verbatim>\<open>sprintf(procname, "/proc/%d/cmdline", id)\<close>: the string stored.\<close>

definition proc_path :: "int \<Rightarrow> string" where
  "proc_path ident = ''/proc/'' @ show_int ident @ ''/cmdline''"

text \<open>
  \<^verbatim>\<open>char *get_cmdline(pid_t id)\<close>. The pointer it returns is always \<^verbatim>\<open>cmdlinebuf\<close>, so
  the model returns the globals, where the caller finds the buffer.
\<close>

definition get_cmdline :: "platform \<Rightarrow> procfs \<Rightarrow> int \<Rightarrow> globals \<Rightarrow> fault + globals" where
  "get_cmdline pf fs ident g =
     (let g1 = g\<lparr>procname := proc_path ident\<rparr>
      in case fs (procname g1) of
           OpenOk r \<Rightarrow>
             (let (buf1, n) = read_cmdline r (cmdlinebuf g1);
                  g2 = g1\<lparr>cmdlinebuf := buf1, bytes := n\<rparr>
              in bnd (sanitize_loop pf (cmdlinebuf g2) 0 (bytes g2))
                   (\<lambda>(buf2, c).
                      if c < CMDLINE_SIZE then Inr (g2\<lparr>cmdlinebuf := buf2[c := NUL]\<rparr>)
                      else Inl (CmdlineOutOfBounds c)))
         | OpenFails \<Rightarrow>
             Inr (g1\<lparr>cmdlinebuf := ''<N/A>'' @ [NUL] @ drop 6 (cmdlinebuf g1), bytes := 5\<rparr>))"

text \<open>What the loop of \<^verbatim>\<open>get_cmdline\<close> does to one byte; used to state its effect.\<close>

definition sanitize :: "platform \<Rightarrow> char \<Rightarrow> char" where
  "sanitize pf ch = (if char_value pf ch < 32 then SPACE else ch)"

text \<open>
  The string a caller's \<^verbatim>\<open>%s\<close> prints for \<^verbatim>\<open>get_cmdline(id)\<close>: the C string at the
  pointer returned.
\<close>

definition cmdline_string :: "platform \<Rightarrow> procfs \<Rightarrow> int \<Rightarrow> globals \<Rightarrow> fault + string" where
  "cmdline_string pf fs ident g = bnd (get_cmdline pf fs ident g) (\<lambda>g1. c_str (cmdlinebuf g1))"

text \<open>
  The idiom \<^verbatim>\<open>printf("... %s\n", ..., get_cmdline(id))\<close> of \<^verbatim>\<open>dispatch_nl_cn\<close>: the
  resolver runs, then one line is written, made of the already formatted identifiers
  and the C string found in \<^verbatim>\<open>cmdlinebuf\<close>.
\<close>

definition printf_cmdline :: "platform \<Rightarrow> procfs \<Rightarrow> string \<Rightarrow> int \<Rightarrow> globals \<Rightarrow> fault + globals" where
  "printf_cmdline pf fs prefix ident g =
     bnd (get_cmdline pf fs ident g)
       (\<lambda>g1. bnd (c_str (cmdlinebuf g1))
          (\<lambda>s. Inr (g1\<lparr>stdout := stdout g1 @ prefix @ s @ [NEWLINE]\<rparr>)))"

section \<open>The receive buffer and the kernel's message layout\<close>

text \<open>
  Modelled from the spec: the wire format, which \<^verbatim>\<open>main.c\<close> takes from the headers
  \<^verbatim>\<open>linux/netlink.h\<close>, \<^verbatim>\<open>linux/connector.h\<close> and \<^verbatim>\<open>linux/cn_proc.h\<close> and which is missing
  from the repository. The specification gives the two-level envelope: a transport-frame
  header (total length, type discriminant, sequence and origin fields), a
  connector-message header (channel identifier pair, sequence, payload length) and a
  process-event payload (discriminant, then four identifiers for Fork and two for Exec),
  all in host-native layout. The field offsets, sizes and constant values below are those
  of the Linux headers.

  The receive buffer is a byte array. A read of an integer field takes its bytes in the
  platform's order; a read that leaves the array is a fault.
\<close>

definition bytes_value :: "nat list \<Rightarrow> nat" where
  "bytes_value bs = foldr (\<lambda>b acc. b + 256 * acc) bs 0"

definition rd_uint :: "platform \<Rightarrow> byte list \<Rightarrow> nat \<Rightarrow> nat \<Rightarrow> fault + nat" where
  "rd_uint pf buf off n =
     (if off + n \<le> length buf then
        (let bs = map unat (take n (drop off buf))
         in Inr (bytes_value (if big_endian pf then rev bs else bs)))
      else Inl (RcvbufOutOfBounds (max off (length buf))))"

definition rd_u16 :: "platform \<Rightarrow> byte list \<Rightarrow> nat \<Rightarrow> fault + nat" where
  "rd_u16 pf buf off = rd_uint pf buf off 2"

definition rd_u32 :: "platform \<Rightarrow> byte list \<Rightarrow> nat \<Rightarrow> fault + nat" where
  "rd_u32 pf buf off = rd_uint pf buf off 4"

text \<open>A \<^verbatim>\<open>__kernel_pid_t\<close> field: a 32-bit two's complement \<^verbatim>\<open>int\<close>.\<close>

definition rd_s32 :: "platform \<Rightarrow> byte list \<Rightarrow> nat \<Rightarrow> fault + int" where
  "rd_s32 pf buf off =
     bnd (rd_u32 pf buf off)
       (\<lambda>v. Inr (if v < 2 ^ 31 then int v else int v - 2 ^ 32))"

text \<open>\<^verbatim>\<open>struct nlmsghdr\<close>: 16 bytes; \<^verbatim>\<open>nlmsg_len\<close> is a \<^verbatim>\<open>__u32\<close>, \<^verbatim>\<open>nlmsg_type\<close> a \<^verbatim>\<open>__u16\<close>.\<close>

definition NLMSG_HDRLEN :: nat where "NLMSG_HDRLEN = 16"
definition nlmsg_len_off :: nat where "nlmsg_len_off = 0"
definition nlmsg_type_off :: nat where "nlmsg_type_off = 4"
definition NLMSG_NOOP :: nat where "NLMSG_NOOP = 1"
definition NLMSG_ERROR :: nat where "NLMSG_ERROR = 2"
definition NLMSG_DONE :: nat where "NLMSG_DONE = 3"
definition NLMSG_OVERRUN :: nat where "NLMSG_OVERRUN = 4"

text \<open>
  \<^verbatim>\<open>struct cn_msg\<close>: \<^verbatim>\<open>id.idx\<close>, \<^verbatim>\<open>id.val\<close>, \<^verbatim>\<open>seq\<close>, \<^verbatim>\<open>ack\<close> (four \<^verbatim>\<open>__u32\<close>), \<^verbatim>\<open>len\<close>,
  \<^verbatim>\<open>flags\<close> (two \<^verbatim>\<open>__u16\<close>), then \<^verbatim>\<open>data\<close>.
\<close>

definition cn_idx_off :: nat where "cn_idx_off = 0"
definition cn_val_off :: nat where "cn_val_off = 4"
definition cn_len_off :: nat where "cn_len_off = 16"
definition cn_data_off :: nat where "cn_data_off = 20"
definition CN_IDX_PROC :: nat where "CN_IDX_PROC = 1"
definition CN_VAL_PROC :: nat where "CN_VAL_PROC = 1"
definition CONNECTOR_MAX_MSG_SIZE :: nat where "CONNECTOR_MAX_MSG_SIZE = 16384"

text \<open>
  \<^verbatim>\<open>struct proc_event\<close>: \<^verbatim>\<open>what\<close> (4 bytes), \<^verbatim>\<open>cpu\<close> (4), \<^verbatim>\<open>timestamp_ns\<close> (8), then the
  union \<^verbatim>\<open>event_data\<close> at offset 16, whose members \<^verbatim>\<open>fork\<close> and \<^verbatim>\<open>exec\<close> are sequences of
  \<^verbatim>\<open>__kernel_pid_t\<close>.
\<close>

definition pe_what_off :: nat where "pe_what_off = 0"
definition fork_parent_pid_off :: nat where "fork_parent_pid_off = 16"
definition fork_parent_tgid_off :: nat where "fork_parent_tgid_off = 20"
definition fork_child_pid_off :: nat where "fork_child_pid_off = 24"
definition fork_child_tgid_off :: nat where "fork_child_tgid_off = 28"
definition exec_process_pid_off :: nat where "exec_process_pid_off = 16"
definition exec_process_tgid_off :: nat where "exec_process_tgid_off = 20"
definition PROC_EVENT_FORK :: nat where "PROC_EVENT_FORK = 1"
definition PROC_EVENT_EXEC :: nat where "PROC_EVENT_EXEC = 2"

section \<open>Dispatch\<close>

text \<open>
  The filter flags \<^verbatim>\<open>execflag\<close>, \<^verbatim>\<open>forkflag\<close>, \<^verbatim>\<open>threadflag\<close>: C \<^verbatim>\<open>int\<close>s that option
  parsing leaves at 0 or sets to 1, and that the event path only tests.
\<close>

record flags =
  execflag :: bool
  forkflag :: bool
  threadflag :: bool

text \<open>
  The \<^verbatim>\<open>switch (pe->what)\<close> of \<^verbatim>\<open>dispatch_nl_cn\<close>, with \<open>pe\<close> the offset of the
  \<^verbatim>\<open>struct proc_event\<close> in the receive buffer. A field is read where the C code
  first evaluates it.
\<close>

definition dispatch_proc_event ::
  "platform \<Rightarrow> flags \<Rightarrow> procfs \<Rightarrow> byte list \<Rightarrow> nat \<Rightarrow> globals \<Rightarrow> fault + globals" where
  "dispatch_proc_event pf fl fs buf pe g =
     bnd (rd_u32 pf buf (pe + pe_what_off))
       (\<lambda>what.
          if what = PROC_EVENT_FORK then
            (if \<not> forkflag fl then Inr g
             else
               bnd (rd_s32 pf buf (pe + fork_child_pid_off)) (\<lambda>child_pid.
               bnd (rd_s32 pf buf (pe + fork_child_tgid_off)) (\<lambda>child_tgid.
                 if child_pid = child_tgid then
                   bnd (rd_s32 pf buf (pe + fork_parent_pid_off)) (\<lambda>parent_pid.
                     printf_cmdline pf fs
                       (''Fork '' @ show_int parent_pid @ '' '' @ show_int child_pid @ '' '')
                       child_tgid g)
                 else if threadflag fl then
                   printf_cmdline pf fs
                     (''Thread '' @ show_int child_tgid @ '' '' @ show_int child_pid @ '' '')
                     child_tgid g
                 else Inr g)))
          else if what = PROC_EVENT_EXEC then
            (if \<not> execflag fl then Inr g
             else
               bnd (rd_s32 pf buf (pe + exec_process_pid_off)) (\<lambda>process_pid.
               bnd (rd_s32 pf buf (pe + exec_process_tgid_off)) (\<lambda>process_tgid.
                 if process_pid = process_tgid then
                   printf_cmdline pf fs (''Exec - '' @ show_int process_pid @ '' '')
                     process_tgid g
                 else if threadflag fl then
                   printf_cmdline pf fs
                     (''Exec '' @ show_int process_tgid @ '' '' @ show_int process_pid @ '' '')
                     process_tgid g
                 else Inr g)))
          else Inr g)"

text \<open>
  \<^verbatim>\<open>void dispatch_nl_cn(struct cn_msg *hdr)\<close>, with \<open>hdr\<close> the offset of the connector
  message. \<^verbatim>\<open>||\<close> reads \<^verbatim>\<open>id.val\<close> only when \<^verbatim>\<open>id.idx\<close> matched.
\<close>

definition dispatch_nl_cn ::
  "platform \<Rightarrow> flags \<Rightarrow> procfs \<Rightarrow> byte list \<Rightarrow> nat \<Rightarrow> globals \<Rightarrow> fault + globals" where
  "dispatch_nl_cn pf fl fs buf hdr g =
     bnd (rd_u32 pf buf (hdr + cn_idx_off))
       (\<lambda>idx.
          if idx \<noteq> CN_IDX_PROC then Inr g
          else
            bnd (rd_u32 pf buf (hdr + cn_val_off))
              (\<lambda>val.
                 if val \<noteq> CN_VAL_PROC then Inr g
                 else dispatch_proc_event pf fl fs buf (hdr + cn_data_off) g))"

text \<open>
  \<^verbatim>\<open>void dispatch_nl(struct nlmsghdr *nlhdr)\<close>; \<^verbatim>\<open>NLMSG_DATA(nlhdr)\<close> is the address
  \<^verbatim>\<open>NLMSG_HDRLEN\<close> bytes after the header's.
\<close>

definition dispatch_nl ::
  "platform \<Rightarrow> flags \<Rightarrow> procfs \<Rightarrow> byte list \<Rightarrow> nat \<Rightarrow> globals \<Rightarrow> fault + globals" where
  "dispatch_nl pf fl fs buf nlhdr g =
     bnd (rd_u16 pf buf (nlhdr + nlmsg_type_off))
       (\<lambda>t.
          if t = NLMSG_ERROR \<or> t = NLMSG_NOOP then Inr g
          else if t = NLMSG_OVERRUN then Inr (g\<lparr>stdout := stdout g @ ''overrun'' @ [NEWLINE]\<rparr>)
          else dispatch_nl_cn pf fl fs buf (nlhdr + NLMSG_HDRLEN) g)"

section \<open>The receive loop\<close>

text \<open>
  Modelled from the spec: the frame check and the step to the next frame, which \<^verbatim>\<open>main\<close>
  takes from macros of \<^verbatim>\<open>linux/netlink.h\<close> that are missing from the repository. The
  specification gives the check: at least a header's worth of bytes remain, and the
  declared total length is at least the header size and at most the remaining bytes.
  The macros are:
  \<^verbatim>\<open>NLMSG_ALIGN(len) = ((len) + 3) & ~3\<close>, computed in \<^verbatim>\<open>unsigned int\<close>;
  \<^verbatim>\<open>NLMSG_OK(nlh, len) = (len) >= (int) sizeof(struct nlmsghdr) &&
     (nlh)->nlmsg_len >= sizeof(struct nlmsghdr) && (nlh)->nlmsg_len <= (len)\<close>;
  \<^verbatim>\<open>NLMSG_NEXT(nlh, len) = ((len) -= NLMSG_ALIGN((nlh)->nlmsg_len),
     (struct nlmsghdr *) (((char *) (nlh)) + NLMSG_ALIGN((nlh)->nlmsg_len)))\<close>.
  \<open>len\<close> is the \<^verbatim>\<open>ssize_t bcount\<close> of \<^verbatim>\<open>main\<close>, here an \<open>int\<close>.
\<close>

definition NLMSG_ALIGN :: "nat \<Rightarrow> nat" where
  "NLMSG_ALIGN n = ((n + 3) mod 2 ^ 32) div 4 * 4"

definition NLMSG_OK :: "platform \<Rightarrow> byte list \<Rightarrow> nat \<Rightarrow> int \<Rightarrow> fault + bool" where
  "NLMSG_OK pf buf nlh len =
     (if len < int NLMSG_HDRLEN then Inr False
      else bnd (rd_u32 pf buf (nlh + nlmsg_len_off))
             (\<lambda>l. Inr (NLMSG_HDRLEN \<le> l \<and> int l \<le> len)))"

definition NLMSG_NEXT :: "platform \<Rightarrow> byte list \<Rightarrow> nat \<Rightarrow> int \<Rightarrow> fault + (nat \<times> int)" where
  "NLMSG_NEXT pf buf nlh len =
     bnd (rd_u32 pf buf (nlh + nlmsg_len_off))
       (\<lambda>l. Inr (nlh + NLMSG_ALIGN l, len - int (NLMSG_ALIGN l)))"

text \<open>
  \<^verbatim>\<open>for (hdr=rcvbuf; NLMSG_OK(hdr, bcount); hdr=NLMSG_NEXT(hdr, bcount)) dispatch_nl(hdr);\<close>
  Nothing in the loop itself bounds the number of rounds, so the model is a partial
  function: \<open>None\<close> is a loop that does not end.
\<close>

partial_function (option) nl_loop ::
  "platform \<Rightarrow> flags \<Rightarrow> procfs \<Rightarrow> byte list \<Rightarrow> nat \<Rightarrow> int \<Rightarrow> globals \<Rightarrow> (fault + globals) option" where
  "nl_loop pf fl fs buf hdr bcount g =
     (case NLMSG_OK pf buf hdr bcount of
        Inl e \<Rightarrow> Some (Inl e)
      | Inr ok \<Rightarrow>
          if \<not> ok then Some (Inr g)
          else
            (case dispatch_nl pf fl fs buf hdr g of
               Inl e \<Rightarrow> Some (Inl e)
             | Inr g' \<Rightarrow>
                 (case NLMSG_NEXT pf buf hdr bcount of
                    Inl e \<Rightarrow> Some (Inl e)
                  | Inr (hdr', bcount') \<Rightarrow> nl_loop pf fl fs buf hdr' bcount' g')))"

text \<open>
  One round of \<^verbatim>\<open>while (1)\<close> in \<^verbatim>\<open>main\<close>. \<^verbatim>\<open>recvfrom\<close> is the environment's: it leaves
  the sender's address in \<^verbatim>\<open>nladdr\<close>, the datagram in \<^verbatim>\<open>rcvbuf\<close> (an array of
  \<^verbatim>\<open>4096+CONNECTOR_MAX_MSG_SIZE\<close> bytes) and returns \<^verbatim>\<open>bcount\<close>.
\<close>

record received =
  nl_pid :: nat
  rcvbuf :: "byte list"
  bcount :: int

definition RCVBUF_SIZE :: nat where
  "RCVBUF_SIZE = 4096 + CONNECTOR_MAX_MSG_SIZE"

definition receive_round ::
  "platform \<Rightarrow> flags \<Rightarrow> procfs \<Rightarrow> received \<Rightarrow> globals \<Rightarrow> (fault + globals) option" where
  "receive_round pf fl fs r g =
     (if nl_pid r = 0 then nl_loop pf fl fs (rcvbuf r) 0 (bcount r) g
      else Some (Inr g))"

text \<open>The rounds of \<^verbatim>\<open>while (1)\<close> for the datagrams received so far, in order.\<close>

fun receive_rounds ::
  "platform \<Rightarrow> flags \<Rightarrow> procfs \<Rightarrow> received list \<Rightarrow> globals \<Rightarrow> (fault + globals) option" where
  "receive_rounds pf fl fs [] g = Some (Inr g)"
| "receive_rounds pf fl fs (r # rs) g =
     (case receive_round pf fl fs r g of
        None \<Rightarrow> None
      | Some (Inl e) \<Rightarrow> Some (Inl e)
      | Some (Inr g') \<Rightarrow> receive_rounds pf fl fs rs g')"

section \<open>The specification's view\<close>

text \<open>
  The frame sequence as the specification describes it: a frame is produced while at
  least a header's worth of bytes remain and the declared total length is at least the
  header size and at most the remaining bytes; the sequence ends at the first frame
  that fails the check. The list holds the offsets of the frames' headers. A frame
  advances the sequence by its aligned length.
\<close>

function nl_frames :: "platform \<Rightarrow> byte list \<Rightarrow> nat \<Rightarrow> int \<Rightarrow> nat list" where
  "nl_frames pf buf hdr remain =
     (if remain < int NLMSG_HDRLEN then []
      else
        (case rd_u32 pf buf (hdr + nlmsg_len_off) of
           Inl e \<Rightarrow> []
         | Inr l \<Rightarrow>
             if NLMSG_HDRLEN \<le> l \<and> int l \<le> remain \<and> 0 < NLMSG_ALIGN l
             then hdr # nl_frames pf buf (hdr + NLMSG_ALIGN l) (remain - int (NLMSG_ALIGN l))
             else []))"
  by pat_completeness auto
termination
  by (relation "measure (\<lambda>(pf, buf, hdr, remain). nat remain)") (auto simp: NLMSG_HDRLEN_def)

declare nl_frames.simps [simp del]

text \<open>\<^verbatim>\<open>dispatch_nl\<close> on each frame of a sequence, in order, up to the first fault.\<close>

fun dispatch_frames ::
  "platform \<Rightarrow> flags \<Rightarrow> procfs \<Rightarrow> byte list \<Rightarrow> nat list \<Rightarrow> globals \<Rightarrow> fault + globals" where
  "dispatch_frames pf fl fs buf [] g = Inr g"
| "dispatch_frames pf fl fs buf (h # hs) g =
     bnd (dispatch_nl pf fl fs buf h g) (dispatch_frames pf fl fs buf hs)"

text \<open>
  The specification's rule for one byte of the command line: a control character, a
  byte whose value is less than 32, becomes a space, and every other byte stays.
\<close>

definition spec_sanitize :: "char \<Rightarrow> char" where
  "spec_sanitize ch = (if (of_char ch :: nat) < 32 then SPACE else ch)"

section \<open>The extent of the reads\<close>

text \<open>
  How far the dispatch functions read, counted in bytes from the start of the structure
  they are given. For the \<^verbatim>\<open>switch\<close> of \<^verbatim>\<open>dispatch_nl_cn\<close> this depends on the discriminant
  and the flags only: a Fork event that passes the fork flag is read up to the end of
  \<^verbatim>\<open>child_tgid\<close>, an Exec event that passes the exec flag up to the end of
  \<^verbatim>\<open>process_tgid\<close>, and of any other event only the discriminant is read.
\<close>

definition payload_extent :: "flags \<Rightarrow> nat \<Rightarrow> nat" where
  "payload_extent fl what =
     (if what = PROC_EVENT_FORK \<and> forkflag fl then fork_child_tgid_off + 4
      else if what = PROC_EVENT_EXEC \<and> execflag fl then exec_process_tgid_off + 4
      else pe_what_off + 4)"

text \<open>
  For \<^verbatim>\<open>dispatch_nl_cn\<close>: \<^verbatim>\<open>id.idx\<close>, then \<^verbatim>\<open>id.val\<close> if \<^verbatim>\<open>id.idx\<close> matched, then the
  process event if both matched.
\<close>

definition cn_extent :: "platform \<Rightarrow> flags \<Rightarrow> byte list \<Rightarrow> nat \<Rightarrow> nat" where
  "cn_extent pf fl buf hdr =
     (case rd_u32 pf buf (hdr + cn_idx_off) of
        Inl e \<Rightarrow> cn_idx_off + 4
      | Inr idx \<Rightarrow>
          if idx \<noteq> CN_IDX_PROC then cn_idx_off + 4
          else
            (case rd_u32 pf buf (hdr + cn_val_off) of
               Inl e \<Rightarrow> cn_val_off + 4
             | Inr val \<Rightarrow>
                 if val \<noteq> CN_VAL_PROC then cn_val_off + 4
                 else
                   (case rd_u32 pf buf (hdr + cn_data_off + pe_what_off) of
                      Inl e \<Rightarrow> cn_data_off + (pe_what_off + 4)
                    | Inr what \<Rightarrow> cn_data_off + payload_extent fl what)))"

text \<open>
  For \<^verbatim>\<open>dispatch_nl\<close>: the type field, and for a data frame the connector message that
  follows the header.
\<close>

definition frame_extent :: "platform \<Rightarrow> flags \<Rightarrow> byte list \<Rightarrow> nat \<Rightarrow> nat" where
  "frame_extent pf fl buf nlhdr =
     (case rd_u16 pf buf (nlhdr + nlmsg_type_off) of
        Inl e \<Rightarrow> nlmsg_type_off + 2
      | Inr t \<Rightarrow>
          if t = NLMSG_ERROR \<or> t = NLMSG_NOOP \<or> t = NLMSG_OVERRUN then nlmsg_type_off + 2
          else NLMSG_HDRLEN + cn_extent pf fl buf (nlhdr + NLMSG_HDRLEN))"

section \<open>Concrete inputs\<close>

text \<open>The platform of an x86-64 Linux build: \<^verbatim>\<open>char\<close> is signed, integers are little-endian.\<close>

definition x86_64 :: platform where
  "x86_64 = \<lparr>char_signed = True, big_endian = False\<rparr>"

text \<open>The platform of an AArch64 Linux build: \<^verbatim>\<open>char\<close> is unsigned.\<close>

definition arm64 :: platform where
  "arm64 = \<lparr>char_signed = False, big_endian = False\<rparr>"

definition only_fork :: flags where
  "only_fork = \<lparr>execflag = False, forkflag = True, threadflag = False\<rparr>"

definition only_exec :: flags where
  "only_exec = \<lparr>execflag = True, forkflag = False, threadflag = False\<rparr>"

definition no_flags :: flags where
  "no_flags = \<lparr>execflag = False, forkflag = False, threadflag = False\<rparr>"

text \<open>Environments: no process exists; every \<^verbatim>\<open>read\<close> fails; files of given contents.\<close>

definition fs_none :: procfs where
  "fs_none p = OpenFails"

definition fs_unreadable :: procfs where
  "fs_unreadable p = OpenOk ReadFails"

definition fs_raw_args :: procfs where
  "fs_raw_args p =
     OpenOk (ReadData [CHR ''a'', CHR ''b'', CHR 0x00, CHR ''c'', CHR ''d'', CHR 0x01,
                       CHR ''e'', CHR ''f''])"

definition fs_high_byte :: procfs where
  "fs_high_byte p = OpenOk (ReadData [CHR 0xE9])"

definition fs_long :: procfs where
  "fs_long p = OpenOk (ReadData (replicate 4096 (CHR ''a'')))"

text \<open>
  Connector messages on the process-event channel (\<open>idx = 1\<close>, \<open>val = 1\<close>), little-endian:
  the 20-byte header with a declared payload length of 40, of 24 and of 28, and a header
  on another channel.
\<close>

definition cn_hdr_len40 :: "byte list" where
  "cn_hdr_len40 = [1,0,0,0, 1,0,0,0, 0,0,0,0, 0,0,0,0, 40,0, 0,0]"

definition cn_hdr_len24 :: "byte list" where
  "cn_hdr_len24 = [1,0,0,0, 1,0,0,0, 0,0,0,0, 0,0,0,0, 24,0, 0,0]"

definition cn_hdr_len28 :: "byte list" where
  "cn_hdr_len28 = [1,0,0,0, 1,0,0,0, 0,0,0,0, 0,0,0,0, 28,0, 0,0]"

definition cn_hdr_other_channel :: "byte list" where
  "cn_hdr_other_channel = [1,0,0,0, 2,0,0,0, 0,0,0,0, 0,0,0,0, 40,0, 0,0]"

text \<open>
  Process events of 40 bytes: a fork (parent 10, child 20 in its own thread group), a
  thread creation (thread 21 in group 20), an exec by the leader 20 and an exec by thread
  21 of group 20.
\<close>

definition pe_fork_10_20 :: "byte list" where
  "pe_fork_10_20 =
     [1,0,0,0, 0,0,0,0, 0,0,0,0,0,0,0,0,
      10,0,0,0, 10,0,0,0, 20,0,0,0, 20,0,0,0, 0,0,0,0,0,0,0,0]"

definition pe_thread_20_21 :: "byte list" where
  "pe_thread_20_21 =
     [1,0,0,0, 0,0,0,0, 0,0,0,0,0,0,0,0,
      10,0,0,0, 10,0,0,0, 21,0,0,0, 20,0,0,0, 0,0,0,0,0,0,0,0]"

definition pe_exec_leader_20 :: "byte list" where
  "pe_exec_leader_20 =
     [2,0,0,0, 0,0,0,0, 0,0,0,0,0,0,0,0,
      20,0,0,0, 20,0,0,0, 0,0,0,0, 0,0,0,0, 0,0,0,0,0,0,0,0]"


text \<open>
  Netlink headers of 16 bytes: a data frame (\<^verbatim>\<open>NLMSG_DONE\<close>) of total length 76 and one
  of total length 16, a no-op,
  an error and an overrun frame of length 16, and a frame that declares 100 bytes.
\<close>

definition nl_hdr_done76 :: "byte list" where
  "nl_hdr_done76 = [76,0,0,0, 3,0, 0,0, 0,0,0,0, 0,0,0,0]"

definition nl_hdr_done16 :: "byte list" where
  "nl_hdr_done16 = [16,0,0,0, 3,0, 0,0, 0,0,0,0, 0,0,0,0]"

definition nl_hdr_noop :: "byte list" where
  "nl_hdr_noop = [16,0,0,0, 1,0, 0,0, 0,0,0,0, 0,0,0,0]"

definition nl_hdr_error :: "byte list" where
  "nl_hdr_error = [16,0,0,0, 2,0, 0,0, 0,0,0,0, 0,0,0,0]"

definition nl_hdr_overrun :: "byte list" where
  "nl_hdr_overrun = [16,0,0,0, 4,0, 0,0, 0,0,0,0, 0,0,0,0]"

definition nl_hdr_declares100 :: "byte list" where
  "nl_hdr_declares100 = [100,0,0,0, 3,0, 0,0, 0,0,0,0, 0,0,0,0]"

section \<open>Basic facts\<close>

lemma bnd_Inr [simp]: "bnd (Inr x) f = f x"
  by (simp add: bnd_def)

lemma bnd_Inl [simp]: "bnd (Inl e) f = Inl e"
  by (simp add: bnd_def)

lemma c_str_terminated:
  assumes "NUL \<notin> set s"
  shows "c_str (s @ NUL # rest) = Inr s"
proof -
  have "takeWhile (\<lambda>c. c \<noteq> NUL) (s @ NUL # rest) = s"
    using assms by (induction s) auto
  then show ?thesis by (simp add: c_str_def)
qed

lemma c_str_fault: "c_str buf \<noteq> Inl (RcvbufOutOfBounds k)"
  by (simp add: c_str_def)

section \<open>The resolver's loop\<close>

lemma sanitize_loop_stop: "remain \<le> 0 \<Longrightarrow> sanitize_loop pf buf c remain = Inr (buf, c)"
  by (simp add: sanitize_loop.simps)

lemma sanitize_loop_step:
  "c < length buf \<Longrightarrow>
   sanitize_loop pf buf c (int (Suc n)) =
     sanitize_loop pf (buf[c := sanitize pf (buf ! c)]) (Suc c) (int n)"
  by (subst sanitize_loop.simps) (simp add: sanitize_def)

text \<open>
  With \<open>n\<close> bytes to go from index \<open>c\<close>, all of them inside the buffer, the loop maps
  exactly those \<open>n\<close> bytes and ends with \<open>c\<close> advanced by \<open>n\<close>.
\<close>

lemma sanitize_loop_map:
  "c + n \<le> length buf \<Longrightarrow>
   sanitize_loop pf buf c (int n) =
     Inr (take c buf @ map (sanitize pf) (take n (drop c buf)) @ drop (c + n) buf, c + n)"
proof (induction n arbitrary: buf c)
  case 0
  then show ?case by (simp add: sanitize_loop_stop)
next
  case (Suc n)
  let ?b = "buf[c := sanitize pf (buf ! c)]"
  from Suc.prems have c: "c < length buf" by simp
  have d: "drop c buf = buf ! c # drop (Suc c) buf"
    using c by (simp add: Cons_nth_drop_Suc)
  have t: "take (Suc c) ?b = take c buf @ [sanitize pf (buf ! c)]"
    using c by (simp add: take_Suc_conv_app_nth)
  have "sanitize_loop pf buf c (int (Suc n)) = sanitize_loop pf ?b (Suc c) (int n)"
    using c by (rule sanitize_loop_step)
  also have "\<dots> =
      Inr (take (Suc c) ?b @ map (sanitize pf) (take n (drop (Suc c) ?b)) @ drop (Suc c + n) ?b,
           Suc c + n)"
    using Suc.prems by (intro Suc.IH) simp
  also have "\<dots> =
      Inr (take c buf @ map (sanitize pf) (take (Suc n) (drop c buf)) @ drop (c + Suc n) buf,
           c + Suc n)"
    by (simp add: t d)
  finally show ?case .
qed

lemma sanitize_loop_after_read:
  assumes "length cs \<le> length buf"
  shows "sanitize_loop pf (cs @ drop (length cs) buf) 0 (int (length cs)) =
           Inr (map (sanitize pf) cs @ drop (length cs) buf, length cs)"
  using sanitize_loop_map [of 0 "length cs" "cs @ drop (length cs) buf" pf] assms
  by simp

lemma sanitize_loop_fault: "sanitize_loop pf buf c remain \<noteq> Inl (RcvbufOutOfBounds k)"
proof (induction pf buf c remain rule: sanitize_loop.induct)
  case (1 pf buf c remain)
  then show ?case
    by (subst sanitize_loop.simps) auto
qed

lemma sanitize_not_NUL: "sanitize pf ch \<noteq> NUL"
  by (auto simp: sanitize_def SPACE_def NUL_def char_value_def Let_def split: if_splits)

text \<open>
  Which bytes the loop replaces: those below 32 and, where \<^verbatim>\<open>char\<close> is signed, also those
  from 128 on, which are negative as \<^verbatim>\<open>char\<close> values.
\<close>

lemma sanitize_cases:
  "sanitize pf ch =
     (if of_char ch < (32::nat) \<or> (char_signed pf \<and> (128::nat) \<le> of_char ch) then SPACE else ch)"
proof -
  have "(of_char ch :: nat) < 256" by simp
  then have "char_value pf ch < 32 \<longleftrightarrow>
      of_char ch < (32::nat) \<or> (char_signed pf \<and> (128::nat) \<le> of_char ch)"
    unfolding char_value_def Let_def by (simp del: nat_of_char_less_256) linarith
  then show ?thesis by (simp add: sanitize_def)
qed

lemma sanitize_unsigned: "\<not> char_signed pf \<Longrightarrow> sanitize pf = spec_sanitize"
  by (rule ext) (simp add: sanitize_cases spec_sanitize_def)

section \<open>The resolver\<close>

lemma get_cmdline_data:
  assumes "fs (proc_path ident) = OpenOk (ReadData cs)"
    and "length cs < CMDLINE_SIZE" and "length (cmdlinebuf g) = CMDLINE_SIZE"
  shows "get_cmdline pf fs ident g =
           Inr (g\<lparr>procname := proc_path ident,
                  cmdlinebuf :=
                    (map (sanitize pf) cs @ drop (length cs) (cmdlinebuf g))[length cs := NUL],
                  bytes := int (length cs)\<rparr>)"
  using assms
  by (simp add: get_cmdline_def read_cmdline_def Let_def sanitize_loop_after_read)

text \<open>
  A read that fills the buffer leaves \<open>c\<close> at 4096, and \<^verbatim>\<open>*c = 0\<close> then stores one past
  the end of \<^verbatim>\<open>cmdlinebuf\<close>.
\<close>

lemma get_cmdline_overflow:
  assumes "fs (proc_path ident) = OpenOk (ReadData cs)"
    and "CMDLINE_SIZE \<le> length cs" and "length (cmdlinebuf g) = CMDLINE_SIZE"
  shows "get_cmdline pf fs ident g = Inl (CmdlineOutOfBounds CMDLINE_SIZE)"
proof -
  let ?got = "take CMDLINE_SIZE cs"
  have "sanitize_loop pf (?got @ drop (length ?got) (cmdlinebuf g)) 0 (int (length ?got)) =
        Inr (map (sanitize pf) ?got @ drop (length ?got) (cmdlinebuf g), length ?got)"
    by (rule sanitize_loop_after_read) (simp add: assms)
  moreover have "length ?got = CMDLINE_SIZE"
    using assms by simp
  ultimately show ?thesis
    using assms by (simp add: get_cmdline_def read_cmdline_def Let_def)
qed

lemma get_cmdline_read_fails:
  assumes "fs (proc_path ident) = OpenOk ReadFails"
  shows "get_cmdline pf fs ident g =
           Inr (g\<lparr>procname := proc_path ident, cmdlinebuf := (cmdlinebuf g)[0 := NUL],
                  bytes := - 1\<rparr>)"
  using assms
  by (simp add: get_cmdline_def read_cmdline_def Let_def sanitize_loop_stop CMDLINE_SIZE_def)

lemma get_cmdline_open_fails:
  assumes "fs (proc_path ident) = OpenFails"
  shows "get_cmdline pf fs ident g =
           Inr (g\<lparr>procname := proc_path ident,
                  cmdlinebuf := ''<N/A>'' @ [NUL] @ drop 6 (cmdlinebuf g), bytes := 5\<rparr>)"
  using assms by (simp add: get_cmdline_def)

lemma get_cmdline_fault: "get_cmdline pf fs ident g \<noteq> Inl (RcvbufOutOfBounds k)"
proof (cases "fs (proc_path ident)")
  case OpenFails
  then show ?thesis by (simp add: get_cmdline_open_fails)
next
  case (OpenOk r)
  obtain buf1 n where rc: "read_cmdline r (cmdlinebuf g) = (buf1, n)"
    by (cases "read_cmdline r (cmdlinebuf g)")
  show ?thesis
  proof (cases "sanitize_loop pf buf1 0 n")
    case (Inl e)
    then have "e \<noteq> RcvbufOutOfBounds k"
      using sanitize_loop_fault [of pf buf1 0 n k] by auto
    then show ?thesis
      using OpenOk rc Inl by (simp add: get_cmdline_def)
  next
    case (Inr res)
    then show ?thesis
      using OpenOk rc by (cases res) (simp add: get_cmdline_def)
  qed
qed

lemma cmdline_string_data:
  assumes "fs (proc_path ident) = OpenOk (ReadData cs)"
    and "length cs < CMDLINE_SIZE" and "length (cmdlinebuf g) = CMDLINE_SIZE"
  shows "cmdline_string pf fs ident g = Inr (map (sanitize pf) cs)"
proof -
  let ?n = "length cs"
  let ?rest = "drop ?n (cmdlinebuf g)"
  have "?rest \<noteq> []" using assms by simp
  then obtain x xs where r: "?rest = x # xs" by (cases ?rest) auto
  have "(map (sanitize pf) cs @ ?rest)[?n := NUL] = map (sanitize pf) cs @ NUL # xs"
    by (simp add: r list_update_append)
  moreover have "NUL \<notin> set (map (sanitize pf) cs)"
    by (metis imageE list.set_map sanitize_not_NUL)
  ultimately show ?thesis
    using assms by (simp add: cmdline_string_def get_cmdline_data c_str_terminated)
qed

lemma cmdline_string_read_fails:
  assumes "fs (proc_path ident) = OpenOk ReadFails" and "cmdlinebuf g \<noteq> []"
  shows "cmdline_string pf fs ident g = Inr []"
proof -
  obtain x xs where "cmdlinebuf g = x # xs"
    using assms by (cases "cmdlinebuf g") auto
  then show ?thesis
    using assms c_str_terminated [of "[]" xs]
    by (simp add: cmdline_string_def get_cmdline_read_fails)
qed

lemma cmdline_string_open_fails:
  assumes "fs (proc_path ident) = OpenFails"
  shows "cmdline_string pf fs ident g = Inr ''<N/A>''"
  using assms c_str_terminated [of "''<N/A>''" "drop 6 (cmdlinebuf g)"]
  by (simp add: cmdline_string_def get_cmdline_open_fails NUL_def)

text \<open>
  Claim C4, amended. For a command line of fewer than 4096 bytes, the string the
  resolver returns is the bytes read with a byte replaced by one space exactly when, as a
  \<^verbatim>\<open>char\<close>, it is less than 32: the byte values 0 to 31 on every platform, and also 128
  to 255 where \<^verbatim>\<open>char\<close> is signed. Every other byte passes through, and where \<^verbatim>\<open>char\<close> is
  unsigned the result is the specification's.
\<close>

theorem get_cmdline_replaces_bytes:
  assumes "fs (proc_path ident) = OpenOk (ReadData cs)"
    and "length cs < CMDLINE_SIZE" and "length (cmdlinebuf g) = CMDLINE_SIZE"
  shows "cmdline_string pf fs ident g =
           Inr (map (\<lambda>ch. if of_char ch < (32::nat) \<or> (char_signed pf \<and> (128::nat) \<le> of_char ch)
                          then SPACE else ch) cs)
         \<and> (\<not> char_signed pf \<longrightarrow> cmdline_string pf fs ident g = Inr (map spec_sanitize cs))"
proof -
  have "cmdline_string pf fs ident g = Inr (map (sanitize pf) cs)"
    using assms by (rule cmdline_string_data)
  moreover have "sanitize pf =
      (\<lambda>ch. if of_char ch < (32::nat) \<or> (char_signed pf \<and> (128::nat) \<le> of_char ch)
             then SPACE else ch)"
    by (rule ext) (rule sanitize_cases)
  ultimately show ?thesis
    by (simp add: spec_sanitize_def)
qed

text \<open>
  The specification's example, \<^verbatim>\<open>"ab\x00cd\x01ef"\<close>, read on x86-64, and the byte 0xE9
  read where \<^verbatim>\<open>char\<close> is unsigned.
\<close>

theorem get_cmdline_replaces_bytes_witness:
  "fs_raw_args (proc_path 1) =
     OpenOk (ReadData [CHR ''a'', CHR ''b'', CHR 0x00, CHR ''c'', CHR ''d'', CHR 0x01,
                       CHR ''e'', CHR ''f''])
   \<and> length [CHR ''a'', CHR ''b'', CHR 0x00, CHR ''c'', CHR ''d'', CHR 0x01, CHR ''e'', CHR ''f'']
       < CMDLINE_SIZE
   \<and> length (cmdlinebuf init_globals) = CMDLINE_SIZE
   \<and> cmdline_string x86_64 fs_raw_args 1 init_globals = Inr ''ab cd ef''
   \<and> fs_high_byte (proc_path 1) = OpenOk (ReadData [CHR 0xE9])
   \<and> \<not> char_signed arm64
   \<and> cmdline_string arm64 fs_high_byte 1 init_globals = Inr (map spec_sanitize [CHR 0xE9])
   \<and> map spec_sanitize [CHR 0xE9] = [CHR 0xE9]"
  using get_cmdline_replaces_bytes
    [of fs_raw_args 1
        "[CHR ''a'', CHR ''b'', CHR 0x00, CHR ''c'', CHR ''d'', CHR 0x01, CHR ''e'', CHR ''f'']"
        init_globals x86_64]
    get_cmdline_replaces_bytes [of fs_high_byte 1 "[CHR 0xE9]" init_globals arm64]
  by (simp add: fs_raw_args_def fs_high_byte_def init_globals_def CMDLINE_SIZE_def SPACE_def
      x86_64_def arm64_def spec_sanitize_def)

text \<open>
  Claim C4 as stated fails where \<^verbatim>\<open>char\<close> is signed: the byte 0xE9, of value 233, is
  replaced by a space, where the specification's rule keeps it.
\<close>

theorem get_cmdline_high_byte_counterexample:
  "cmdline_string x86_64 fs_high_byte 1 init_globals = Inr '' ''
   \<and> cmdline_string x86_64 fs_high_byte 1 init_globals \<noteq> Inr (map spec_sanitize [CHR 0xE9])"
proof -
  have "cmdline_string x86_64 fs_high_byte 1 init_globals = Inr (map (sanitize x86_64) [CHR 0xE9])"
    by (rule cmdline_string_data)
      (simp_all add: fs_high_byte_def init_globals_def CMDLINE_SIZE_def)
  then show ?thesis
    by (simp add: sanitize_cases spec_sanitize_def x86_64_def SPACE_def)
qed

text \<open>
  Claim C7. When \<^verbatim>\<open>open\<close> fails the resolver returns \<^verbatim>\<open>"<N/A>"\<close>; when \<^verbatim>\<open>open\<close> succeeds and
  \<^verbatim>\<open>read\<close> fails it returns the empty string, not the placeholder.
\<close>

theorem get_cmdline_read_failure_is_empty:
  "cmdline_string x86_64 fs_unreadable 1 init_globals = Inr []
   \<and> cmdline_string x86_64 fs_none 1 init_globals = Inr ''<N/A>''"
proof -
  have "cmdline_string x86_64 fs_unreadable 1 init_globals = Inr []"
    by (rule cmdline_string_read_fails)
      (simp_all add: fs_unreadable_def init_globals_def CMDLINE_SIZE_def)
  moreover have "cmdline_string x86_64 fs_none 1 init_globals = Inr ''<N/A>''"
    by (rule cmdline_string_open_fails) (simp add: fs_none_def)
  ultimately show ?thesis by simp
qed

text \<open>
  Claim C9. A read of 4096 bytes makes the resolver store the terminating NUL at index
  4096 of the 4096-byte \<^verbatim>\<open>cmdlinebuf\<close>: outside the array.
\<close>

theorem get_cmdline_full_read_overflows:
  "get_cmdline x86_64 fs_long 1 init_globals = Inl (CmdlineOutOfBounds 4096)"
  using get_cmdline_overflow [of fs_long 1 "replicate 4096 (CHR ''a'')" init_globals x86_64]
  by (simp add: fs_long_def init_globals_def CMDLINE_SIZE_def)

section \<open>Printing a record\<close>




lemma printf_cmdline_fault: "printf_cmdline pf fs prefix ident g \<noteq> Inl (RcvbufOutOfBounds k)"
proof (cases "get_cmdline pf fs ident g")
  case (Inl e)
  then show ?thesis
    using get_cmdline_fault [of pf fs ident g k] by (auto simp: printf_cmdline_def)
next
  case (Inr g1)
  then show ?thesis
    using c_str_fault [of "cmdlinebuf g1" k]
    by (cases "c_str (cmdlinebuf g1)") (auto simp: printf_cmdline_def)
qed

lemma printf_cmdline_open_fails:
  assumes "fs (proc_path ident) = OpenFails"
  shows "map_sum id stdout (printf_cmdline pf fs prefix ident g) =
           Inr (stdout g @ prefix @ ''<N/A>'' @ [NEWLINE])"
  using assms c_str_terminated [of "''<N/A>''" "drop 6 (cmdlinebuf g)"]
  by (simp add: printf_cmdline_def get_cmdline_open_fails NUL_def)

section \<open>Reads of the receive buffer\<close>

lemma rd_uint_in_bounds:
  "off + n \<le> length buf \<Longrightarrow> \<exists>v. rd_uint pf buf off n = Inr v"
  by (simp add: rd_uint_def Let_def)

lemma rd_u32_in_bounds:
  "off + 4 \<le> length buf \<Longrightarrow> \<exists>v. rd_u32 pf buf off = Inr v"
  by (simp add: rd_u32_def rd_uint_in_bounds)

lemma rd_s32_in_bounds:
  "off + 4 \<le> length buf \<Longrightarrow> \<exists>v. rd_s32 pf buf off = Inr v"
  using rd_u32_in_bounds [of off buf pf] by (auto simp: rd_s32_def)

lemmas rd_eval =
  rd_s32_def rd_u32_def rd_u16_def rd_uint_def bytes_value_def Let_def x86_64_def

lemmas layout_defs =
  NLMSG_HDRLEN_def nlmsg_len_off_def nlmsg_type_off_def
  NLMSG_NOOP_def NLMSG_ERROR_def NLMSG_DONE_def NLMSG_OVERRUN_def
  cn_idx_off_def cn_val_off_def cn_len_off_def cn_data_off_def CN_IDX_PROC_def CN_VAL_PROC_def
  pe_what_off_def fork_parent_pid_off_def fork_parent_tgid_off_def fork_child_pid_off_def
  fork_child_tgid_off_def exec_process_pid_off_def exec_process_tgid_off_def
  PROC_EVENT_FORK_def PROC_EVENT_EXEC_def

section \<open>Dispatch of process events\<close>





section \<open>The extent of the reads of the decoder\<close>

text \<open>Reads of a buffer cut at \<open>m\<close>: the same below \<open>m\<close>, a fault across it.\<close>

lemma rd_uint_take:
  assumes "off + n \<le> m" and "m \<le> length buf"
  shows "rd_uint pf (take m buf) off n = rd_uint pf buf off n"
proof -
  have "take n (drop off (take m buf)) = take n (drop off buf)"
    using assms by (simp add: drop_take min_def)
  then show ?thesis
    using assms by (simp add: rd_uint_def)
qed

lemma rd_u32_take:
  assumes "off + 4 \<le> m" and "m \<le> length buf"
  shows "rd_u32 pf (take m buf) off = rd_u32 pf buf off"
  using assms by (simp add: rd_u32_def rd_uint_take)

lemma rd_s32_take:
  assumes "off + 4 \<le> m" and "m \<le> length buf"
  shows "rd_s32 pf (take m buf) off = rd_s32 pf buf off"
  using assms by (simp add: rd_s32_def rd_u32_take)

lemma rd_u16_take:
  assumes "off + 2 \<le> m" and "m \<le> length buf"
  shows "rd_u16 pf (take m buf) off = rd_u16 pf buf off"
  using assms by (simp add: rd_u16_def rd_uint_take)

lemma rd_uint_cut_fault:
  assumes "m < off + n" and "m \<le> length buf"
  shows "rd_uint pf (take m buf) off n = Inl (RcvbufOutOfBounds (max off m))"
  using assms by (simp add: rd_uint_def min_def)

lemma rd_u32_cut_fault:
  assumes "m < off + 4" and "m \<le> length buf"
  shows "rd_u32 pf (take m buf) off = Inl (RcvbufOutOfBounds (max off m))"
  using assms by (simp add: rd_u32_def rd_uint_cut_fault)

lemma rd_s32_cut_fault:
  assumes "m < off + 4" and "m \<le> length buf"
  shows "rd_s32 pf (take m buf) off = Inl (RcvbufOutOfBounds (max off m))"
  using assms by (simp add: rd_s32_def rd_u32_cut_fault)

lemma rd_u16_cut_fault:
  assumes "m < off + 2" and "m \<le> length buf"
  shows "rd_u16 pf (take m buf) off = Inl (RcvbufOutOfBounds (max off m))"
  using assms by (simp add: rd_u16_def rd_uint_cut_fault)

lemma PROC_EVENT_distinct [simp]:
  "PROC_EVENT_EXEC \<noteq> PROC_EVENT_FORK" "PROC_EVENT_FORK \<noteq> PROC_EVENT_EXEC"
  by (simp_all add: PROC_EVENT_FORK_def PROC_EVENT_EXEC_def)

lemma payload_extent_cases:
  "payload_extent fl what = 32 \<and> what = PROC_EVENT_FORK \<and> forkflag fl
   \<or> payload_extent fl what = 24 \<and> what = PROC_EVENT_EXEC \<and> execflag fl
       \<and> \<not> (what = PROC_EVENT_FORK \<and> forkflag fl)
   \<or> payload_extent fl what = 4 \<and> \<not> (what = PROC_EVENT_FORK \<and> forkflag fl)
       \<and> \<not> (what = PROC_EVENT_EXEC \<and> execflag fl)"
  by (simp add: payload_extent_def layout_defs)

lemma dispatch_proc_event_unread:
  assumes "rd_u32 pf b (pe + pe_what_off) = Inr what"
    and "\<not> (what = PROC_EVENT_FORK \<and> forkflag fl)"
    and "\<not> (what = PROC_EVENT_EXEC \<and> execflag fl)"
  shows "dispatch_proc_event pf fl fs b pe g = Inr g"
  using assms by (auto simp: dispatch_proc_event_def)

text \<open>
  The \<^verbatim>\<open>switch\<close> reads nothing at or past its extent: on a buffer cut there or later it
  does what it does on the whole buffer, and none of its reads leaves the buffer.
\<close>

lemma dispatch_proc_event_take_extent:
  assumes w: "rd_u32 pf buf (pe + pe_what_off) = Inr what"
    and e: "pe + payload_extent fl what \<le> m" and m: "m \<le> length buf"
  shows "dispatch_proc_event pf fl fs (take m buf) pe g = dispatch_proc_event pf fl fs buf pe g"
proof -
  have "pe + pe_what_off + 4 \<le> m"
    using e payload_extent_cases [of fl what] by (auto simp: pe_what_off_def)
  then have wc: "rd_u32 pf (take m buf) (pe + pe_what_off) = Inr what"
    using w m by (simp add: rd_u32_take)
  from payload_extent_cases [of fl what] show ?thesis
  proof (elim disjE conjE)
    assume x: "payload_extent fl what = 32" and f: "what = PROC_EVENT_FORK" "forkflag fl"
    have eqs: "rd_s32 pf (take m buf) (pe + fork_parent_pid_off) = rd_s32 pf buf (pe + fork_parent_pid_off)"
      "rd_s32 pf (take m buf) (pe + fork_child_pid_off) = rd_s32 pf buf (pe + fork_child_pid_off)"
      "rd_s32 pf (take m buf) (pe + fork_child_tgid_off) = rd_s32 pf buf (pe + fork_child_tgid_off)"
      using e m x by (simp_all add: rd_s32_take layout_defs)
    show ?thesis
      using w wc f by (simp add: dispatch_proc_event_def eqs cong del: if_weak_cong)
  next
    assume x: "payload_extent fl what = 24" and f: "what = PROC_EVENT_EXEC" "execflag fl"
      "\<not> (what = PROC_EVENT_FORK \<and> forkflag fl)"
    have eqs: "rd_s32 pf (take m buf) (pe + exec_process_pid_off) = rd_s32 pf buf (pe + exec_process_pid_off)"
      "rd_s32 pf (take m buf) (pe + exec_process_tgid_off) = rd_s32 pf buf (pe + exec_process_tgid_off)"
      using e m x by (simp_all add: rd_s32_take layout_defs)
    show ?thesis
      using w wc f by (auto simp: dispatch_proc_event_def eqs cong del: if_weak_cong)
  next
    assume f: "\<not> (what = PROC_EVENT_FORK \<and> forkflag fl)" "\<not> (what = PROC_EVENT_EXEC \<and> execflag fl)"
    show ?thesis
      using dispatch_proc_event_unread [OF w f] dispatch_proc_event_unread [OF wc f] by simp
  qed
qed

lemma dispatch_proc_event_no_rcvbuf_fault:
  assumes w: "rd_u32 pf buf (pe + pe_what_off) = Inr what"
    and e: "pe + payload_extent fl what \<le> length buf"
  shows "dispatch_proc_event pf fl fs buf pe g \<noteq> Inl (RcvbufOutOfBounds k)"
proof -
  from payload_extent_cases [of fl what] show ?thesis
  proof (elim disjE conjE)
    assume x: "payload_extent fl what = 32" and f: "what = PROC_EVENT_FORK" "forkflag fl"
    obtain a where a: "rd_s32 pf buf (pe + fork_parent_pid_off) = Inr a"
      using e x rd_s32_in_bounds [of "pe + fork_parent_pid_off" buf pf] by (auto simp: layout_defs)
    obtain c where c: "rd_s32 pf buf (pe + fork_child_pid_off) = Inr c"
      using e x rd_s32_in_bounds [of "pe + fork_child_pid_off" buf pf] by (auto simp: layout_defs)
    obtain d where d: "rd_s32 pf buf (pe + fork_child_tgid_off) = Inr d"
      using e x rd_s32_in_bounds [of "pe + fork_child_tgid_off" buf pf] by (auto simp: layout_defs)
    show ?thesis
      using w f a c d by (simp add: dispatch_proc_event_def printf_cmdline_fault)
  next
    assume x: "payload_extent fl what = 24" and f: "what = PROC_EVENT_EXEC" "execflag fl"
      "\<not> (what = PROC_EVENT_FORK \<and> forkflag fl)"
    obtain a where a: "rd_s32 pf buf (pe + exec_process_pid_off) = Inr a"
      using e x rd_s32_in_bounds [of "pe + exec_process_pid_off" buf pf] by (auto simp: layout_defs)
    obtain b where b: "rd_s32 pf buf (pe + exec_process_tgid_off) = Inr b"
      using e x rd_s32_in_bounds [of "pe + exec_process_tgid_off" buf pf] by (auto simp: layout_defs)
    show ?thesis
      using w f a b by (auto simp: dispatch_proc_event_def printf_cmdline_fault)
  next
    assume f: "\<not> (what = PROC_EVENT_FORK \<and> forkflag fl)" "\<not> (what = PROC_EVENT_EXEC \<and> execflag fl)"
    show ?thesis
      using dispatch_proc_event_unread [OF w f] by simp
  qed
qed

text \<open>
  The extent is exact: on a buffer cut before it, a read of the \<^verbatim>\<open>switch\<close> leaves the
  buffer.
\<close>

lemma dispatch_proc_event_what_fault:
  assumes "rd_u32 pf b (pe + pe_what_off) = Inl e"
  shows "dispatch_proc_event pf fl fs b pe g = Inl e"
  using assms by (simp add: dispatch_proc_event_def)

lemma dispatch_proc_event_cut_fault:
  assumes w: "rd_u32 pf buf (pe + pe_what_off) = Inr what"
    and e: "m < pe + payload_extent fl what" and m: "m \<le> length buf"
  shows "\<exists>k. dispatch_proc_event pf fl fs (take m buf) pe g = Inl (RcvbufOutOfBounds k)"
proof (cases "m < pe + pe_what_off + 4")
  case True
  then show ?thesis
    using m dispatch_proc_event_what_fault [OF rd_u32_cut_fault [of m "pe + pe_what_off" buf pf]]
    by blast
next
  case False
  then have wc: "rd_u32 pf (take m buf) (pe + pe_what_off) = Inr what"
    using w m by (simp add: rd_u32_take)
  from payload_extent_cases [of fl what] show ?thesis
  proof (elim disjE conjE)
    assume x: "payload_extent fl what = 32" and f: "what = PROC_EVENT_FORK" "forkflag fl"
    show ?thesis
    proof (cases "m < pe + fork_child_pid_off + 4")
      case True
      then have "rd_s32 pf (take m buf) (pe + fork_child_pid_off) =
          Inl (RcvbufOutOfBounds (max (pe + fork_child_pid_off) m))"
        using m by (intro rd_s32_cut_fault) simp_all
      then show ?thesis
        using wc f by (simp add: dispatch_proc_event_def)
    next
      case cp: False
      then obtain c where "rd_s32 pf buf (pe + fork_child_pid_off) = Inr c"
        using m rd_s32_in_bounds [of "pe + fork_child_pid_off" buf pf] by auto
      then have c: "rd_s32 pf (take m buf) (pe + fork_child_pid_off) = Inr c"
        using cp m by (simp add: rd_s32_take)
      have "m < pe + fork_child_tgid_off + 4"
        using e x by (simp add: layout_defs)
      then have "rd_s32 pf (take m buf) (pe + fork_child_tgid_off) =
          Inl (RcvbufOutOfBounds (max (pe + fork_child_tgid_off) m))"
        using m by (intro rd_s32_cut_fault) simp_all
      then show ?thesis
        using wc f c by (simp add: dispatch_proc_event_def)
    qed
  next
    assume x: "payload_extent fl what = 24" and f: "what = PROC_EVENT_EXEC" "execflag fl"
      "\<not> (what = PROC_EVENT_FORK \<and> forkflag fl)"
    show ?thesis
    proof (cases "m < pe + exec_process_pid_off + 4")
      case True
      then have "rd_s32 pf (take m buf) (pe + exec_process_pid_off) =
          Inl (RcvbufOutOfBounds (max (pe + exec_process_pid_off) m))"
        using m by (intro rd_s32_cut_fault) simp_all
      then show ?thesis
        using wc f by (auto simp: dispatch_proc_event_def)
    next
      case cp: False
      then obtain c where "rd_s32 pf buf (pe + exec_process_pid_off) = Inr c"
        using m rd_s32_in_bounds [of "pe + exec_process_pid_off" buf pf] by auto
      then have c: "rd_s32 pf (take m buf) (pe + exec_process_pid_off) = Inr c"
        using cp m by (simp add: rd_s32_take)
      have "m < pe + exec_process_tgid_off + 4"
        using e x by (simp add: layout_defs)
      then have "rd_s32 pf (take m buf) (pe + exec_process_tgid_off) =
          Inl (RcvbufOutOfBounds (max (pe + exec_process_tgid_off) m))"
        using m by (intro rd_s32_cut_fault) simp_all
      then show ?thesis
        using wc f c by (auto simp: dispatch_proc_event_def)
    qed
  next
    assume "payload_extent fl what = 4"
    then show ?thesis
      using e False by (simp add: pe_what_off_def)
  qed
qed

lemma payload_extent_ge: "pe_what_off + 4 \<le> payload_extent fl what"
  by (simp add: payload_extent_def layout_defs)

lemma cn_extent_ge: "cn_idx_off + 4 \<le> cn_extent pf fl buf hdr"
  by (auto simp: cn_extent_def layout_defs split: sum.splits)

lemma cn_extent_idx_ge:
  assumes "rd_u32 pf buf (hdr + cn_idx_off) = Inr CN_IDX_PROC"
  shows "cn_val_off + 4 \<le> cn_extent pf fl buf hdr"
  using assms by (auto simp: cn_extent_def layout_defs split: sum.splits)

lemma cn_extent_val_ge:
  assumes "rd_u32 pf buf (hdr + cn_idx_off) = Inr CN_IDX_PROC"
    and "rd_u32 pf buf (hdr + cn_val_off) = Inr CN_VAL_PROC"
  shows "cn_data_off + pe_what_off + 4 \<le> cn_extent pf fl buf hdr"
proof (cases "rd_u32 pf buf (hdr + cn_data_off + pe_what_off)")
  case (Inl e)
  then show ?thesis using assms by (simp add: cn_extent_def)
next
  case (Inr what)
  then show ?thesis
    using assms payload_extent_ge [of fl what] by (simp add: cn_extent_def)
qed

lemma dispatch_nl_cn_foreign_idx:
  assumes "rd_u32 pf b (hdr + cn_idx_off) = Inr idx" and "idx \<noteq> CN_IDX_PROC"
  shows "dispatch_nl_cn pf fl fs b hdr g = Inr g"
  using assms by (simp add: dispatch_nl_cn_def)

lemma dispatch_nl_cn_foreign_val:
  assumes "rd_u32 pf b (hdr + cn_idx_off) = Inr CN_IDX_PROC"
    and "rd_u32 pf b (hdr + cn_val_off) = Inr val" and "val \<noteq> CN_VAL_PROC"
  shows "dispatch_nl_cn pf fl fs b hdr g = Inr g"
  using assms by (simp add: dispatch_nl_cn_def)

lemma dispatch_nl_cn_proc:
  assumes "rd_u32 pf b (hdr + cn_idx_off) = Inr CN_IDX_PROC"
    and "rd_u32 pf b (hdr + cn_val_off) = Inr CN_VAL_PROC"
  shows "dispatch_nl_cn pf fl fs b hdr g = dispatch_proc_event pf fl fs b (hdr + cn_data_off) g"
  using assms by (simp add: dispatch_nl_cn_def)

lemma dispatch_nl_cn_take_extent:
  assumes e: "hdr + cn_extent pf fl buf hdr \<le> m" and m: "m \<le> length buf"
  shows "dispatch_nl_cn pf fl fs (take m buf) hdr g = dispatch_nl_cn pf fl fs buf hdr g"
proof -
  have i4: "hdr + cn_idx_off + 4 \<le> m"
    using e cn_extent_ge [of pf fl buf hdr] by simp
  then obtain idx where idx: "rd_u32 pf buf (hdr + cn_idx_off) = Inr idx"
    using m rd_u32_in_bounds [of "hdr + cn_idx_off" buf pf] by auto
  have idxc: "rd_u32 pf (take m buf) (hdr + cn_idx_off) = Inr idx"
    using idx i4 m by (simp add: rd_u32_take)
  show ?thesis
  proof (cases "idx = CN_IDX_PROC")
    case False
    then show ?thesis
      using idx idxc by (simp add: dispatch_nl_cn_foreign_idx)
  next
    case True
    have v4: "hdr + cn_val_off + 4 \<le> m"
      using e idx True cn_extent_idx_ge [of pf buf hdr fl] by simp
    then obtain val where val: "rd_u32 pf buf (hdr + cn_val_off) = Inr val"
      using m rd_u32_in_bounds [of "hdr + cn_val_off" buf pf] by auto
    have valc: "rd_u32 pf (take m buf) (hdr + cn_val_off) = Inr val"
      using val v4 m by (simp add: rd_u32_take)
    show ?thesis
    proof (cases "val = CN_VAL_PROC")
      case False
      then show ?thesis
        using idx idxc val valc True by (simp add: dispatch_nl_cn_foreign_val)
    next
      case vt: True
      have w4: "hdr + cn_data_off + pe_what_off + 4 \<le> m"
        using e idx True val vt cn_extent_val_ge [of pf buf hdr fl] by simp
      then obtain what where what: "rd_u32 pf buf (hdr + cn_data_off + pe_what_off) = Inr what"
        using m rd_u32_in_bounds [of "hdr + cn_data_off + pe_what_off" buf pf] by auto
      have "cn_extent pf fl buf hdr = cn_data_off + payload_extent fl what"
        using idx True val vt what by (simp add: cn_extent_def)
      then have "hdr + cn_data_off + payload_extent fl what \<le> m"
        using e by simp
      then have "dispatch_proc_event pf fl fs (take m buf) (hdr + cn_data_off) g =
          dispatch_proc_event pf fl fs buf (hdr + cn_data_off) g"
        using what m by (intro dispatch_proc_event_take_extent) simp_all
      then show ?thesis
        using idx idxc val valc True vt by (simp add: dispatch_nl_cn_proc)
    qed
  qed
qed

lemma dispatch_nl_cn_cut_fault:
  assumes e: "m < hdr + cn_extent pf fl buf hdr" and m: "m \<le> length buf"
  shows "\<exists>k. dispatch_nl_cn pf fl fs (take m buf) hdr g = Inl (RcvbufOutOfBounds k)"
proof (cases "m < hdr + cn_idx_off + 4")
  case True
  then have "rd_u32 pf (take m buf) (hdr + cn_idx_off) =
      Inl (RcvbufOutOfBounds (max (hdr + cn_idx_off) m))"
    using m by (intro rd_u32_cut_fault) simp_all
  then show ?thesis
    by (simp add: dispatch_nl_cn_def)
next
  case i4: False
  then obtain idx where idx: "rd_u32 pf buf (hdr + cn_idx_off) = Inr idx"
    using m rd_u32_in_bounds [of "hdr + cn_idx_off" buf pf] by auto
  have idxc: "rd_u32 pf (take m buf) (hdr + cn_idx_off) = Inr idx"
    using idx i4 m by (simp add: rd_u32_take)
  have it: "idx = CN_IDX_PROC"
    using e i4 idx by (auto simp: cn_extent_def split: if_splits)
  show ?thesis
  proof (cases "m < hdr + cn_val_off + 4")
    case True
    then have "rd_u32 pf (take m buf) (hdr + cn_val_off) =
        Inl (RcvbufOutOfBounds (max (hdr + cn_val_off) m))"
      using m by (intro rd_u32_cut_fault) simp_all
    then show ?thesis
      using idxc it by (simp add: dispatch_nl_cn_def)
  next
    case v4: False
    then obtain val where val: "rd_u32 pf buf (hdr + cn_val_off) = Inr val"
      using m rd_u32_in_bounds [of "hdr + cn_val_off" buf pf] by auto
    have valc: "rd_u32 pf (take m buf) (hdr + cn_val_off) = Inr val"
      using val v4 m by (simp add: rd_u32_take)
    have vt: "val = CN_VAL_PROC"
      using e v4 idx it val by (auto simp: cn_extent_def split: if_splits)
    have disp: "dispatch_nl_cn pf fl fs (take m buf) hdr g =
        dispatch_proc_event pf fl fs (take m buf) (hdr + cn_data_off) g"
      using idxc valc it vt by (simp add: dispatch_nl_cn_proc)
    show ?thesis
    proof (cases "m < hdr + cn_data_off + pe_what_off + 4")
      case True
      then have "rd_u32 pf (take m buf) (hdr + cn_data_off + pe_what_off) =
          Inl (RcvbufOutOfBounds (max (hdr + cn_data_off + pe_what_off) m))"
        using m by (intro rd_u32_cut_fault) simp_all
      then show ?thesis
        unfolding disp by (simp add: dispatch_proc_event_what_fault)
    next
      case w4: False
      then obtain what where what: "rd_u32 pf buf (hdr + cn_data_off + pe_what_off) = Inr what"
        using m rd_u32_in_bounds [of "hdr + cn_data_off + pe_what_off" buf pf] by auto
      have "cn_extent pf fl buf hdr = cn_data_off + payload_extent fl what"
        using idx it val vt what by (simp add: cn_extent_def)
      then have "m < hdr + cn_data_off + payload_extent fl what"
        using e by simp
      then show ?thesis
        unfolding disp using what m by (intro dispatch_proc_event_cut_fault) simp_all
    qed
  qed
qed


text \<open>The length field of the connector message is outside every read.\<close>

lemma rd_uint_update_outside:
  assumes "i < off \<or> off + n \<le> i"
  shows "rd_uint pf (buf[i := v]) off n = rd_uint pf buf off n"
proof -
  have "take n (drop off (buf[i := v])) = take n (drop off buf)"
  proof (cases "i < off")
    case True
    then show ?thesis by simp
  next
    case False
    then have "off + n \<le> i" using assms by simp
    then show ?thesis
      using False by (simp add: drop_update_swap)
  qed
  then show ?thesis
    by (simp add: rd_uint_def)
qed

lemma rd_u32_update_outside:
  assumes "i < off \<or> off + 4 \<le> i"
  shows "rd_u32 pf (buf[i := v]) off = rd_u32 pf buf off"
  using assms by (simp add: rd_u32_def rd_uint_update_outside)

lemma rd_s32_update_outside:
  assumes "i < off \<or> off + 4 \<le> i"
  shows "rd_s32 pf (buf[i := v]) off = rd_s32 pf buf off"
  using assms by (simp add: rd_s32_def rd_u32_update_outside)

lemma dispatch_nl_cn_ignores_len:
  "dispatch_nl_cn pf fl fs (buf[hdr + cn_len_off := a, hdr + cn_len_off + 1 := b]) hdr g =
     dispatch_nl_cn pf fl fs buf hdr g"
proof -
  let ?b = "buf[hdr + cn_len_off := a, hdr + cn_len_off + 1 := b]"
  have eqs:
    "rd_u32 pf ?b (hdr + cn_idx_off) = rd_u32 pf buf (hdr + cn_idx_off)"
    "rd_u32 pf ?b (hdr + cn_val_off) = rd_u32 pf buf (hdr + cn_val_off)"
    "rd_u32 pf ?b (hdr + cn_data_off + pe_what_off) = rd_u32 pf buf (hdr + cn_data_off + pe_what_off)"
    "rd_s32 pf ?b (hdr + cn_data_off + fork_parent_pid_off) =
       rd_s32 pf buf (hdr + cn_data_off + fork_parent_pid_off)"
    "rd_s32 pf ?b (hdr + cn_data_off + fork_child_pid_off) =
       rd_s32 pf buf (hdr + cn_data_off + fork_child_pid_off)"
    "rd_s32 pf ?b (hdr + cn_data_off + fork_child_tgid_off) =
       rd_s32 pf buf (hdr + cn_data_off + fork_child_tgid_off)"
    "rd_s32 pf ?b (hdr + cn_data_off + exec_process_pid_off) =
       rd_s32 pf buf (hdr + cn_data_off + exec_process_pid_off)"
    "rd_s32 pf ?b (hdr + cn_data_off + exec_process_tgid_off) =
       rd_s32 pf buf (hdr + cn_data_off + exec_process_tgid_off)"
    by (simp_all add: rd_u32_update_outside rd_s32_update_outside layout_defs)
  show ?thesis
    unfolding dispatch_nl_cn_def dispatch_proc_event_def eqs by (rule refl)
qed

text \<open>
  Claim C3, amended. For a connector message on the process-event channel, the decoder
  never consults the declared payload length: changing the bytes of the length field
  changes nothing. Its reads of the payload extend exactly to the discriminant's end at
  payload offset 4, or to offset 32 for a Fork event when the fork flag is set, or to
  offset 24 for an Exec event when the exec flag is set. So decoding reads only bytes
  within the declared length if and only if the declared length is at least that extent:
  then the decoder does on the buffer cut at the end of the declared payload what it does
  on the whole buffer and no read leaves the cut buffer, and otherwise a read leaves it.
\<close>

theorem dispatch_nl_cn_reads_within_declared:
  assumes idx: "rd_u32 pf buf (hdr + cn_idx_off) = Inr CN_IDX_PROC"
    and val: "rd_u32 pf buf (hdr + cn_val_off) = Inr CN_VAL_PROC"
    and len: "rd_u16 pf buf (hdr + cn_len_off) = Inr len"
    and what: "rd_u32 pf buf (hdr + cn_data_off + pe_what_off) = Inr what"
    and fit: "hdr + cn_data_off + len \<le> length buf"
  shows "(payload_extent fl what \<le> len \<longrightarrow>
            dispatch_nl_cn pf fl fs (take (hdr + cn_data_off + len) buf) hdr g =
              dispatch_nl_cn pf fl fs buf hdr g
          \<and> (\<forall>k. dispatch_nl_cn pf fl fs (take (hdr + cn_data_off + len) buf) hdr g \<noteq>
                   Inl (RcvbufOutOfBounds k)))
       \<and> (len < payload_extent fl what \<longrightarrow>
            (\<exists>k. dispatch_nl_cn pf fl fs (take (hdr + cn_data_off + len) buf) hdr g =
                   Inl (RcvbufOutOfBounds k)))
       \<and> (\<forall>a b. dispatch_nl_cn pf fl fs (buf[hdr + cn_len_off := a, hdr + cn_len_off + 1 := b])
                   hdr g =
                 dispatch_nl_cn pf fl fs buf hdr g)"
proof -
  let ?m = "hdr + cn_data_off + len"
  have ext: "cn_extent pf fl buf hdr = cn_data_off + payload_extent fl what"
    using idx val what by (simp add: cn_extent_def)
  have within: "dispatch_nl_cn pf fl fs (take ?m buf) hdr g = dispatch_nl_cn pf fl fs buf hdr g"
    "dispatch_nl_cn pf fl fs (take ?m buf) hdr g \<noteq> Inl (RcvbufOutOfBounds k)"
    if le: "payload_extent fl what \<le> len" for k
  proof -
    show eq: "dispatch_nl_cn pf fl fs (take ?m buf) hdr g = dispatch_nl_cn pf fl fs buf hdr g"
      using le fit by (intro dispatch_nl_cn_take_extent) (simp_all add: ext)
    have "hdr + cn_data_off + payload_extent fl what \<le> length buf"
      using le fit by arith
    with what have "dispatch_proc_event pf fl fs buf (hdr + cn_data_off) g \<noteq>
        Inl (RcvbufOutOfBounds k)"
      by (rule dispatch_proc_event_no_rcvbuf_fault)
    then show "dispatch_nl_cn pf fl fs (take ?m buf) hdr g \<noteq> Inl (RcvbufOutOfBounds k)"
      unfolding eq using idx val by (simp add: dispatch_nl_cn_proc)
  qed
  have past: "\<exists>k. dispatch_nl_cn pf fl fs (take ?m buf) hdr g = Inl (RcvbufOutOfBounds k)"
    if "len < payload_extent fl what"
    using that fit by (intro dispatch_nl_cn_cut_fault) (simp_all add: ext)
  from within past dispatch_nl_cn_ignores_len [of pf fl fs buf hdr _ _ g] show ?thesis
    by blast
qed

text \<open>
  A Fork event declared with 40 bytes and an Exec event declared with 24 bytes are read
  within the declared length; a Fork event declared with 28 bytes is not.
\<close>

theorem dispatch_nl_cn_reads_within_declared_witness:
  "rd_u32 x86_64 (cn_hdr_len40 @ pe_fork_10_20 @ pe_thread_20_21) (0 + cn_idx_off) = Inr CN_IDX_PROC
   \<and> rd_u32 x86_64 (cn_hdr_len40 @ pe_fork_10_20 @ pe_thread_20_21) (0 + cn_val_off) =
       Inr CN_VAL_PROC
   \<and> rd_u16 x86_64 (cn_hdr_len40 @ pe_fork_10_20 @ pe_thread_20_21) (0 + cn_len_off) = Inr 40
   \<and> rd_u32 x86_64 (cn_hdr_len40 @ pe_fork_10_20 @ pe_thread_20_21) (0 + cn_data_off + pe_what_off)
       = Inr PROC_EVENT_FORK
   \<and> 0 + cn_data_off + 40 \<le> length (cn_hdr_len40 @ pe_fork_10_20 @ pe_thread_20_21)
   \<and> payload_extent only_fork PROC_EVENT_FORK = 32
   \<and> dispatch_nl_cn x86_64 only_fork fs_none
         (take (0 + cn_data_off + 40) (cn_hdr_len40 @ pe_fork_10_20 @ pe_thread_20_21)) 0
         init_globals =
       dispatch_nl_cn x86_64 only_fork fs_none (cn_hdr_len40 @ pe_fork_10_20 @ pe_thread_20_21) 0
         init_globals
   \<and> dispatch_nl_cn x86_64 only_fork fs_none
         ((cn_hdr_len40 @ pe_fork_10_20 @ pe_thread_20_21)
            [0 + cn_len_off := 0, 0 + cn_len_off + 1 := 0]) 0 init_globals =
       dispatch_nl_cn x86_64 only_fork fs_none (cn_hdr_len40 @ pe_fork_10_20 @ pe_thread_20_21) 0
         init_globals
   \<and> rd_u16 x86_64 (cn_hdr_len24 @ pe_exec_leader_20) (0 + cn_len_off) = Inr 24
   \<and> payload_extent only_exec PROC_EVENT_EXEC = 24
   \<and> dispatch_nl_cn x86_64 only_exec fs_none
         (take (0 + cn_data_off + 24) (cn_hdr_len24 @ pe_exec_leader_20)) 0 init_globals =
       dispatch_nl_cn x86_64 only_exec fs_none (cn_hdr_len24 @ pe_exec_leader_20) 0 init_globals
   \<and> rd_u16 x86_64 (cn_hdr_len28 @ pe_fork_10_20) (0 + cn_len_off) = Inr 28
   \<and> (\<exists>k. dispatch_nl_cn x86_64 only_fork fs_none
         (take (0 + cn_data_off + 28) (cn_hdr_len28 @ pe_fork_10_20)) 0 init_globals =
       Inl (RcvbufOutOfBounds k))"
proof -
  let ?A = "cn_hdr_len40 @ pe_fork_10_20 @ pe_thread_20_21"
  let ?B = "cn_hdr_len24 @ pe_exec_leader_20"
  let ?C = "cn_hdr_len28 @ pe_fork_10_20"
  have a: "rd_u32 x86_64 ?A (0 + cn_idx_off) = Inr CN_IDX_PROC"
    "rd_u32 x86_64 ?A (0 + cn_val_off) = Inr CN_VAL_PROC"
    "rd_u16 x86_64 ?A (0 + cn_len_off) = Inr 40"
    "rd_u32 x86_64 ?A (0 + cn_data_off + pe_what_off) = Inr PROC_EVENT_FORK"
    "0 + cn_data_off + 40 \<le> length ?A"
    by (simp_all add: rd_eval layout_defs cn_hdr_len40_def pe_fork_10_20_def pe_thread_20_21_def)
  have b: "rd_u32 x86_64 ?B (0 + cn_idx_off) = Inr CN_IDX_PROC"
    "rd_u32 x86_64 ?B (0 + cn_val_off) = Inr CN_VAL_PROC"
    "rd_u16 x86_64 ?B (0 + cn_len_off) = Inr 24"
    "rd_u32 x86_64 ?B (0 + cn_data_off + pe_what_off) = Inr PROC_EVENT_EXEC"
    "0 + cn_data_off + 24 \<le> length ?B"
    by (simp_all add: rd_eval layout_defs cn_hdr_len24_def pe_exec_leader_20_def)
  have c: "rd_u32 x86_64 ?C (0 + cn_idx_off) = Inr CN_IDX_PROC"
    "rd_u32 x86_64 ?C (0 + cn_val_off) = Inr CN_VAL_PROC"
    "rd_u16 x86_64 ?C (0 + cn_len_off) = Inr 28"
    "rd_u32 x86_64 ?C (0 + cn_data_off + pe_what_off) = Inr PROC_EVENT_FORK"
    "0 + cn_data_off + 28 \<le> length ?C"
    by (simp_all add: rd_eval layout_defs cn_hdr_len28_def pe_fork_10_20_def)
  have e: "payload_extent only_fork PROC_EVENT_FORK = 32"
    "payload_extent only_exec PROC_EVENT_EXEC = 24"
    by (simp_all add: payload_extent_def only_fork_def only_exec_def layout_defs)
  note A = dispatch_nl_cn_reads_within_declared [OF a, of only_fork fs_none init_globals]
  note B = dispatch_nl_cn_reads_within_declared [OF b, of only_exec fs_none init_globals]
  note C = dispatch_nl_cn_reads_within_declared [OF c, of only_fork fs_none init_globals]
  from A e have A1: "dispatch_nl_cn x86_64 only_fork fs_none (take (0 + cn_data_off + 40) ?A) 0
      init_globals = dispatch_nl_cn x86_64 only_fork fs_none ?A 0 init_globals"
    by simp
  from A have A3: "dispatch_nl_cn x86_64 only_fork fs_none
      (?A[0 + cn_len_off := 0, 0 + cn_len_off + 1 := 0]) 0 init_globals =
      dispatch_nl_cn x86_64 only_fork fs_none ?A 0 init_globals"
    by blast
  from B e have B1: "dispatch_nl_cn x86_64 only_exec fs_none (take (0 + cn_data_off + 24) ?B) 0
      init_globals = dispatch_nl_cn x86_64 only_exec fs_none ?B 0 init_globals"
    by simp
  from C e have C2: "\<exists>k. dispatch_nl_cn x86_64 only_fork fs_none
      (take (0 + cn_data_off + 28) ?C) 0 init_globals = Inl (RcvbufOutOfBounds k)"
    by simp
  from a b(3) c(3) e A1 A3 B1 C2 show ?thesis
    by blast
qed

text \<open>
  Claim C3 as stated fails. A connector message declares a payload of 28 bytes, more than
  the 16 bytes of the process-event header, and carries a Fork event. The decoder prints
  the Fork record, and it reads \<^verbatim>\<open>child_tgid\<close> at payload offsets 28 to 31: on the buffer
  cut at the end of the declared payload that read is outside.
\<close>

theorem dispatch_nl_cn_reads_past_declared_counterexample:
  "rd_u16 x86_64 (cn_hdr_len28 @ pe_fork_10_20) cn_len_off = Inr 28
   \<and> map_sum id stdout
       (dispatch_nl_cn x86_64 only_fork fs_none (cn_hdr_len28 @ pe_fork_10_20) 0 init_globals) =
       Inr (''Fork 10 20 <N/A>'' @ [NEWLINE])
   \<and> dispatch_nl_cn x86_64 only_fork fs_none
       (take (cn_data_off + 28) (cn_hdr_len28 @ pe_fork_10_20)) 0 init_globals =
       Inl (RcvbufOutOfBounds (cn_data_off + fork_child_tgid_off))"
proof -
  have s: "show_int 10 = ''10''" "show_int 20 = ''20''"
    by (simp_all add: show_int_def show_nat.simps)
  have "rd_u16 x86_64 (cn_hdr_len28 @ pe_fork_10_20) cn_len_off = Inr 28"
    by (simp add: rd_eval layout_defs cn_hdr_len28_def pe_fork_10_20_def)
  moreover have "map_sum id stdout
       (dispatch_nl_cn x86_64 only_fork fs_none (cn_hdr_len28 @ pe_fork_10_20) 0 init_globals) =
       Inr (''Fork 10 20 <N/A>'' @ [NEWLINE])"
    by (simp add: dispatch_nl_cn_def dispatch_proc_event_def rd_eval layout_defs
        cn_hdr_len28_def pe_fork_10_20_def only_fork_def printf_cmdline_open_fails fs_none_def
        init_globals_def s)
  moreover have "dispatch_nl_cn x86_64 only_fork fs_none
       (take (cn_data_off + 28) (cn_hdr_len28 @ pe_fork_10_20)) 0 init_globals =
       Inl (RcvbufOutOfBounds (cn_data_off + fork_child_tgid_off))"
    by (simp add: dispatch_nl_cn_def dispatch_proc_event_def rd_eval layout_defs
        cn_hdr_len28_def pe_fork_10_20_def only_fork_def)
  ultimately show ?thesis by simp
qed


section \<open>Dispatch of netlink frames\<close>

text \<open>
  Claim C5. A frame of type \<^verbatim>\<open>NLMSG_OVERRUN\<close> makes \<^verbatim>\<open>dispatch_nl\<close> print exactly the line
  \<^verbatim>\<open>overrun\<close>, whatever the exec, fork and thread flags are.
\<close>

theorem dispatch_nl_overrun:
  assumes "rd_u16 pf buf (nlhdr + nlmsg_type_off) = Inr NLMSG_OVERRUN"
  shows "dispatch_nl pf fl fs buf nlhdr g = Inr (g\<lparr>stdout := stdout g @ ''overrun'' @ [NEWLINE]\<rparr>)"
  using assms by (simp add: dispatch_nl_def NLMSG_OVERRUN_def NLMSG_ERROR_def NLMSG_NOOP_def)

theorem dispatch_nl_overrun_witness:
  "rd_u16 x86_64 nl_hdr_overrun (0 + nlmsg_type_off) = Inr NLMSG_OVERRUN
   \<and> dispatch_nl x86_64 no_flags fs_none nl_hdr_overrun 0 init_globals =
       Inr (init_globals\<lparr>stdout := ''overrun'' @ [NEWLINE]\<rparr>)"
proof -
  have r: "rd_u16 x86_64 nl_hdr_overrun (0 + nlmsg_type_off) = Inr NLMSG_OVERRUN"
    by (simp add: rd_eval layout_defs nl_hdr_overrun_def)
  from dispatch_nl_overrun [OF r, of no_flags fs_none init_globals] r show ?thesis
    by (simp add: init_globals_def)
qed

text \<open>
  Claim C8. A frame of type \<^verbatim>\<open>NLMSG_ERROR\<close> or \<^verbatim>\<open>NLMSG_NOOP\<close> leaves the state as it was,
  whatever follows the type field. A frame of any type other than these and
  \<^verbatim>\<open>NLMSG_OVERRUN\<close> is a data frame: its payload goes to the process-event switch if and
  only if the connector identifiers are \<^verbatim>\<open>CN_IDX_PROC\<close> and \<^verbatim>\<open>CN_VAL_PROC\<close>, and
  otherwise the state stays as it was.
\<close>

theorem dispatch_nl_classifies:
  assumes "rd_u16 pf buf (nlhdr + nlmsg_type_off) = Inr t"
  shows "(t = NLMSG_ERROR \<or> t = NLMSG_NOOP \<longrightarrow> dispatch_nl pf fl fs buf nlhdr g = Inr g)
       \<and> (t \<noteq> NLMSG_ERROR \<and> t \<noteq> NLMSG_NOOP \<and> t \<noteq> NLMSG_OVERRUN \<longrightarrow>
            (\<forall>idx val.
               rd_u32 pf buf (nlhdr + NLMSG_HDRLEN + cn_idx_off) = Inr idx \<and>
               rd_u32 pf buf (nlhdr + NLMSG_HDRLEN + cn_val_off) = Inr val \<longrightarrow>
               dispatch_nl pf fl fs buf nlhdr g =
                 (if idx = CN_IDX_PROC \<and> val = CN_VAL_PROC
                  then dispatch_proc_event pf fl fs buf (nlhdr + NLMSG_HDRLEN + cn_data_off) g
                  else Inr g)))"
  using assms by (auto simp: dispatch_nl_def dispatch_nl_cn_def)

theorem dispatch_nl_classifies_witness:
  "rd_u16 x86_64 (nl_hdr_error @ cn_hdr_len40 @ pe_fork_10_20) (0 + nlmsg_type_off) =
       Inr NLMSG_ERROR
   \<and> dispatch_nl x86_64 only_fork fs_none (nl_hdr_error @ cn_hdr_len40 @ pe_fork_10_20) 0
       init_globals = Inr init_globals
   \<and> rd_u16 x86_64 (nl_hdr_noop @ cn_hdr_len40 @ pe_fork_10_20) (0 + nlmsg_type_off) = Inr NLMSG_NOOP
   \<and> dispatch_nl x86_64 only_fork fs_none (nl_hdr_noop @ cn_hdr_len40 @ pe_fork_10_20) 0
       init_globals = Inr init_globals
   \<and> rd_u16 x86_64 (nl_hdr_done76 @ cn_hdr_other_channel @ pe_fork_10_20) (0 + nlmsg_type_off) =
       Inr NLMSG_DONE
   \<and> dispatch_nl x86_64 only_fork fs_none (nl_hdr_done76 @ cn_hdr_other_channel @ pe_fork_10_20) 0
       init_globals = Inr init_globals
   \<and> rd_u16 x86_64 (nl_hdr_done76 @ cn_hdr_len40 @ pe_fork_10_20) (0 + nlmsg_type_off) =
       Inr NLMSG_DONE
   \<and> dispatch_nl x86_64 only_fork fs_none (nl_hdr_done76 @ cn_hdr_len40 @ pe_fork_10_20) 0
       init_globals =
       dispatch_proc_event x86_64 only_fork fs_none (nl_hdr_done76 @ cn_hdr_len40 @ pe_fork_10_20)
         (0 + NLMSG_HDRLEN + cn_data_off) init_globals"
proof -
  have r1: "rd_u16 x86_64 (nl_hdr_noop @ cn_hdr_len40 @ pe_fork_10_20) (0 + nlmsg_type_off) =
      Inr NLMSG_NOOP"
    by (simp add: rd_eval layout_defs nl_hdr_noop_def)
  have r0: "rd_u16 x86_64 (nl_hdr_error @ cn_hdr_len40 @ pe_fork_10_20) (0 + nlmsg_type_off) =
      Inr NLMSG_ERROR"
    by (simp add: rd_eval layout_defs nl_hdr_error_def)
  from dispatch_nl_classifies [OF r0, of only_fork fs_none init_globals]
  have e: "dispatch_nl x86_64 only_fork fs_none (nl_hdr_error @ cn_hdr_len40 @ pe_fork_10_20) 0
       init_globals = Inr init_globals"
    by simp
  have r2: "rd_u16 x86_64 (nl_hdr_done76 @ cn_hdr_other_channel @ pe_fork_10_20)
      (0 + nlmsg_type_off) = Inr NLMSG_DONE"
    by (simp add: rd_eval layout_defs nl_hdr_done76_def)
  have c2: "rd_u32 x86_64 (nl_hdr_done76 @ cn_hdr_other_channel @ pe_fork_10_20)
      (0 + NLMSG_HDRLEN + cn_idx_off) = Inr 1"
    "rd_u32 x86_64 (nl_hdr_done76 @ cn_hdr_other_channel @ pe_fork_10_20)
      (0 + NLMSG_HDRLEN + cn_val_off) = Inr 2"
    by (simp_all add: rd_eval layout_defs nl_hdr_done76_def cn_hdr_other_channel_def
        pe_fork_10_20_def)
  have r3: "rd_u16 x86_64 (nl_hdr_done76 @ cn_hdr_len40 @ pe_fork_10_20) (0 + nlmsg_type_off) =
      Inr NLMSG_DONE"
    by (simp add: rd_eval layout_defs nl_hdr_done76_def)
  have c3: "rd_u32 x86_64 (nl_hdr_done76 @ cn_hdr_len40 @ pe_fork_10_20)
      (0 + NLMSG_HDRLEN + cn_idx_off) = Inr 1"
    "rd_u32 x86_64 (nl_hdr_done76 @ cn_hdr_len40 @ pe_fork_10_20)
      (0 + NLMSG_HDRLEN + cn_val_off) = Inr 1"
    by (simp_all add: rd_eval layout_defs nl_hdr_done76_def cn_hdr_len40_def pe_fork_10_20_def)
  have t: "NLMSG_DONE \<noteq> NLMSG_ERROR \<and> NLMSG_DONE \<noteq> NLMSG_NOOP \<and> NLMSG_DONE \<noteq> NLMSG_OVERRUN"
    by (simp add: layout_defs)
  from dispatch_nl_classifies [OF r1, of only_fork fs_none init_globals]
  have a: "dispatch_nl x86_64 only_fork fs_none (nl_hdr_noop @ cn_hdr_len40 @ pe_fork_10_20) 0
       init_globals = Inr init_globals"
    by simp
  from dispatch_nl_classifies [OF r2, of only_fork fs_none init_globals] t c2
  have b: "dispatch_nl x86_64 only_fork fs_none
       (nl_hdr_done76 @ cn_hdr_other_channel @ pe_fork_10_20) 0 init_globals = Inr init_globals"
    by (simp add: CN_VAL_PROC_def)
  from dispatch_nl_classifies [OF r3, of only_fork fs_none init_globals] t c3
  have c: "dispatch_nl x86_64 only_fork fs_none (nl_hdr_done76 @ cn_hdr_len40 @ pe_fork_10_20) 0
       init_globals =
       dispatch_proc_event x86_64 only_fork fs_none (nl_hdr_done76 @ cn_hdr_len40 @ pe_fork_10_20)
         (0 + NLMSG_HDRLEN + cn_data_off) init_globals"
    by (simp add: CN_IDX_PROC_def CN_VAL_PROC_def)
  from r0 e r1 a r2 b r3 c show ?thesis by simp
qed

section \<open>The receive loop\<close>

lemma NLMSG_ALIGN_ge:
  assumes "l + 3 < 2 ^ 32"
  shows "l \<le> NLMSG_ALIGN l"
proof -
  have "(l + 3) mod 2 ^ 32 = l + 3"
    using assms by simp
  moreover have "l \<le> (l + 3) div 4 * 4"
    by presburger
  ultimately show ?thesis
    by (simp add: NLMSG_ALIGN_def)
qed

text \<open>
  The loop of \<^verbatim>\<open>main\<close> ends, and it dispatches exactly the frames of the specification's
  sequence, in order. The bytes counted by \<open>remain\<close> lie inside the buffer, and the
  buffer is small enough for \<^verbatim>\<open>NLMSG_ALIGN\<close> not to wrap around.
\<close>

lemma nl_loop_is_dispatch_frames:
  assumes "int hdr + remain \<le> int (length buf)" and "length buf + 3 < 2 ^ 32"
  shows "nl_loop pf fl fs buf hdr remain g =
           Some (dispatch_frames pf fl fs buf (nl_frames pf buf hdr remain) g)"
  using assms
proof (induction pf buf hdr remain arbitrary: g rule: nl_frames.induct)
  case (1 pf buf hdr remain)
  show ?case
  proof (cases "remain < int NLMSG_HDRLEN")
    case True
    then show ?thesis
      by (subst nl_loop.simps, subst nl_frames.simps) (simp add: NLMSG_OK_def)
  next
    case False
    then have "hdr + 4 \<le> length buf"
      using "1.prems" by (simp add: NLMSG_HDRLEN_def)
    then obtain l where l: "rd_u32 pf buf (hdr + nlmsg_len_off) = Inr l"
      using rd_u32_in_bounds [of hdr buf pf] by (auto simp: nlmsg_len_off_def)
    show ?thesis
    proof (cases "NLMSG_HDRLEN \<le> l \<and> int l \<le> remain")
      case no: False
      then show ?thesis
        using False l
        by (subst nl_loop.simps, subst nl_frames.simps) (auto simp: NLMSG_OK_def)
    next
      case ok: True
      then have "l + 3 < 2 ^ 32"
        using "1.prems" by simp
      then have "l \<le> NLMSG_ALIGN l"
        by (rule NLMSG_ALIGN_ge)
      then have pos: "0 < NLMSG_ALIGN l"
        using ok by (simp add: NLMSG_HDRLEN_def)
      have fr: "nl_frames pf buf hdr remain =
          hdr # nl_frames pf buf (hdr + NLMSG_ALIGN l) (remain - int (NLMSG_ALIGN l))"
        using False l ok pos by (subst nl_frames.simps) simp
      have okv: "NLMSG_OK pf buf hdr remain = Inr True"
        using False l ok by (simp add: NLMSG_OK_def)
      have nxt: "NLMSG_NEXT pf buf hdr remain =
          Inr (hdr + NLMSG_ALIGN l, remain - int (NLMSG_ALIGN l))"
        using l by (simp add: NLMSG_NEXT_def)
      show ?thesis
      proof (cases "dispatch_nl pf fl fs buf hdr g")
        case (Inl e)
        then show ?thesis
          using okv by (subst nl_loop.simps) (simp add: fr)
      next
        case (Inr g')
        have "nl_loop pf fl fs buf (hdr + NLMSG_ALIGN l) (remain - int (NLMSG_ALIGN l)) g' =
            Some (dispatch_frames pf fl fs buf
              (nl_frames pf buf (hdr + NLMSG_ALIGN l) (remain - int (NLMSG_ALIGN l))) g')"
          using False l ok pos "1.prems" by (intro "1.IH") auto
        then show ?thesis
          using okv nxt Inr by (subst nl_loop.simps) (simp add: fr)
      qed
    qed
  qed
qed

text \<open>Every frame of the sequence passed the check, and lies within the bytes received.\<close>

lemma nl_frames_valid:
  "h \<in> set (nl_frames pf buf hdr remain) \<Longrightarrow>
     \<exists>l. rd_u32 pf buf (h + nlmsg_len_off) = Inr l \<and> NLMSG_HDRLEN \<le> l \<and>
         int h + int l \<le> int hdr + remain \<and> hdr \<le> h"
proof (induction pf buf hdr remain rule: nl_frames.induct)
  case (1 pf buf hdr remain)
  from "1.prems" have nonempty: "nl_frames pf buf hdr remain \<noteq> []"
    by auto
  then have big: "\<not> remain < int NLMSG_HDRLEN"
    by (subst (asm) nl_frames.simps) (auto split: if_splits)
  from nonempty big obtain l where l: "rd_u32 pf buf (hdr + nlmsg_len_off) = Inr l"
    by (subst (asm) nl_frames.simps) (auto split: if_splits sum.splits)
  from nonempty big l have ok: "NLMSG_HDRLEN \<le> l \<and> int l \<le> remain \<and> 0 < NLMSG_ALIGN l"
    by (subst (asm) nl_frames.simps) (auto split: if_splits)
  have fr: "nl_frames pf buf hdr remain =
      hdr # nl_frames pf buf (hdr + NLMSG_ALIGN l) (remain - int (NLMSG_ALIGN l))"
    using big l ok by (subst nl_frames.simps) simp
  show ?case
  proof (cases "h = hdr")
    case True
    then show ?thesis using l ok by auto
  next
    case False
    then have "h \<in> set (nl_frames pf buf (hdr + NLMSG_ALIGN l) (remain - int (NLMSG_ALIGN l)))"
      using "1.prems" fr by simp
    then have "\<exists>l'. rd_u32 pf buf (h + nlmsg_len_off) = Inr l' \<and> NLMSG_HDRLEN \<le> l' \<and>
        int h + int l' \<le> int (hdr + NLMSG_ALIGN l) + (remain - int (NLMSG_ALIGN l)) \<and>
        hdr + NLMSG_ALIGN l \<le> h"
      using big l ok by (intro "1.IH") auto
    then show ?thesis by auto
  qed
qed

text \<open>The sequence is empty as soon as the frame at its start fails the check.\<close>

lemma nl_frames_stop:
  assumes "remain < int NLMSG_HDRLEN \<or>
           (\<exists>l. rd_u32 pf buf (hdr + nlmsg_len_off) = Inr l \<and> (l < NLMSG_HDRLEN \<or> remain < int l))"
  shows "nl_frames pf buf hdr remain = []"
  using assms by (subst nl_frames.simps) auto

text \<open>
  A round of \<^verbatim>\<open>main\<close> on a datagram from the kernel: \<^verbatim>\<open>rcvbuf\<close> has its 20480 bytes and
  \<^verbatim>\<open>recvfrom\<close> returned at most that many, or -1.
\<close>

lemma receive_round_from_kernel:
  assumes "nl_pid r = 0" and "length (rcvbuf r) = RCVBUF_SIZE" and "bcount r \<le> int RCVBUF_SIZE"
  shows "receive_round pf fl fs r g =
           Some (dispatch_frames pf fl fs (rcvbuf r) (nl_frames pf (rcvbuf r) 0 (bcount r)) g)"
proof -
  have "int 0 + bcount r \<le> int (length (rcvbuf r))"
    using assms by simp
  moreover have "length (rcvbuf r) + 3 < 2 ^ 32"
    using assms by (simp add: RCVBUF_SIZE_def CONNECTOR_MAX_MSG_SIZE_def)
  ultimately show ?thesis
    using assms by (simp add: receive_round_def nl_loop_is_dispatch_frames)
qed

text \<open>
  The reads of \<^verbatim>\<open>dispatch_nl\<close> on a frame extend exactly to the frame's extent, and a
  sequence of frames whose extents all end by \<open>m\<close> is dispatched on the buffer cut at
  \<open>m\<close> as on the whole buffer.
\<close>

lemma dispatch_nl_take_extent:
  assumes e: "h + frame_extent pf fl buf h \<le> m" and m: "m \<le> length buf"
  shows "dispatch_nl pf fl fs (take m buf) h g = dispatch_nl pf fl fs buf h g"
proof -
  have t2: "h + nlmsg_type_off + 2 \<le> m"
    using e by (auto simp: frame_extent_def layout_defs split: sum.splits if_splits)
  then obtain t where t: "rd_u16 pf buf (h + nlmsg_type_off) = Inr t"
    using m rd_uint_in_bounds [of "h + nlmsg_type_off" 2 buf pf] by (auto simp: rd_u16_def)
  have tc: "rd_u16 pf (take m buf) (h + nlmsg_type_off) = Inr t"
    using t t2 m by (simp add: rd_u16_take)
  show ?thesis
  proof (cases "t = NLMSG_ERROR \<or> t = NLMSG_NOOP \<or> t = NLMSG_OVERRUN")
    case True
    then show ?thesis
      using t tc by (auto simp: dispatch_nl_def)
  next
    case False
    then have "frame_extent pf fl buf h = NLMSG_HDRLEN + cn_extent pf fl buf (h + NLMSG_HDRLEN)"
      using t by (simp add: frame_extent_def)
    then have "h + NLMSG_HDRLEN + cn_extent pf fl buf (h + NLMSG_HDRLEN) \<le> m"
      using e by simp
    then have "dispatch_nl_cn pf fl fs (take m buf) (h + NLMSG_HDRLEN) g =
        dispatch_nl_cn pf fl fs buf (h + NLMSG_HDRLEN) g"
      using m by (rule dispatch_nl_cn_take_extent)
    then show ?thesis
      using t tc False by (simp add: dispatch_nl_def)
  qed
qed

lemma dispatch_nl_cut_fault:
  assumes e: "m < h + frame_extent pf fl buf h" and m: "m \<le> length buf"
  shows "\<exists>k. dispatch_nl pf fl fs (take m buf) h g = Inl (RcvbufOutOfBounds k)"
proof (cases "m < h + nlmsg_type_off + 2")
  case True
  then have "rd_u16 pf (take m buf) (h + nlmsg_type_off) =
      Inl (RcvbufOutOfBounds (max (h + nlmsg_type_off) m))"
    using m by (intro rd_u16_cut_fault) simp_all
  then show ?thesis
    by (simp add: dispatch_nl_def)
next
  case t2: False
  then obtain t where t: "rd_u16 pf buf (h + nlmsg_type_off) = Inr t"
    using m rd_uint_in_bounds [of "h + nlmsg_type_off" 2 buf pf] by (auto simp: rd_u16_def)
  have tc: "rd_u16 pf (take m buf) (h + nlmsg_type_off) = Inr t"
    using t t2 m by (simp add: rd_u16_take)
  have data: "\<not> (t = NLMSG_ERROR \<or> t = NLMSG_NOOP \<or> t = NLMSG_OVERRUN)"
    using e t2 t by (auto simp: frame_extent_def split: if_splits)
  then have "frame_extent pf fl buf h = NLMSG_HDRLEN + cn_extent pf fl buf (h + NLMSG_HDRLEN)"
    using t by (simp add: frame_extent_def)
  then have "m < h + NLMSG_HDRLEN + cn_extent pf fl buf (h + NLMSG_HDRLEN)"
    using e by simp
  then have "\<exists>k. dispatch_nl_cn pf fl fs (take m buf) (h + NLMSG_HDRLEN) g =
      Inl (RcvbufOutOfBounds k)"
    using m by (rule dispatch_nl_cn_cut_fault)
  then show ?thesis
    using tc data by (simp add: dispatch_nl_def)
qed

lemma dispatch_frames_take_extent:
  assumes "\<forall>h \<in> set hs. h + frame_extent pf fl buf h \<le> m" and "m \<le> length buf"
  shows "dispatch_frames pf fl fs (take m buf) hs g = dispatch_frames pf fl fs buf hs g"
  using assms
proof (induction hs arbitrary: g)
  case Nil
  then show ?case by simp
next
  case (Cons h hs)
  have "dispatch_nl pf fl fs (take m buf) h g = dispatch_nl pf fl fs buf h g"
    using Cons.prems by (intro dispatch_nl_take_extent) simp_all
  moreover have "\<And>g'. dispatch_frames pf fl fs (take m buf) hs g' =
      dispatch_frames pf fl fs buf hs g'"
    using Cons.prems by (intro Cons.IH) simp_all
  ultimately show ?case
    by (cases "dispatch_nl pf fl fs buf h g") simp_all
qed


lemma dispatch_frames_single:
  "dispatch_frames pf fl fs buf [h] g = dispatch_nl pf fl fs buf h g"
  by (cases "dispatch_nl pf fl fs buf h g") simp_all

text \<open>
  \<^verbatim>\<open>dispatch_nl\<close> reads nothing before the type field of the frame, so not the
  declared length \<^verbatim>\<open>nlmsg_len\<close>; and the values an extent can take.
\<close>

lemma rd_u16_update_outside:
  assumes "i < off \<or> off + 2 \<le> i"
  shows "rd_u16 pf (buf[i := v]) off = rd_u16 pf buf off"
  using assms by (simp add: rd_u16_def rd_uint_update_outside)

lemma dispatch_nl_cn_update_before:
  assumes "i < hdr"
  shows "dispatch_nl_cn pf fl fs (buf[i := v]) hdr g = dispatch_nl_cn pf fl fs buf hdr g"
proof -
  let ?b = "buf[i := v]"
  have eqs:
    "rd_u32 pf ?b (hdr + cn_idx_off) = rd_u32 pf buf (hdr + cn_idx_off)"
    "rd_u32 pf ?b (hdr + cn_val_off) = rd_u32 pf buf (hdr + cn_val_off)"
    "rd_u32 pf ?b (hdr + cn_data_off + pe_what_off) = rd_u32 pf buf (hdr + cn_data_off + pe_what_off)"
    "rd_s32 pf ?b (hdr + cn_data_off + fork_parent_pid_off) =
       rd_s32 pf buf (hdr + cn_data_off + fork_parent_pid_off)"
    "rd_s32 pf ?b (hdr + cn_data_off + fork_child_pid_off) =
       rd_s32 pf buf (hdr + cn_data_off + fork_child_pid_off)"
    "rd_s32 pf ?b (hdr + cn_data_off + fork_child_tgid_off) =
       rd_s32 pf buf (hdr + cn_data_off + fork_child_tgid_off)"
    "rd_s32 pf ?b (hdr + cn_data_off + exec_process_pid_off) =
       rd_s32 pf buf (hdr + cn_data_off + exec_process_pid_off)"
    "rd_s32 pf ?b (hdr + cn_data_off + exec_process_tgid_off) =
       rd_s32 pf buf (hdr + cn_data_off + exec_process_tgid_off)"
    using assms by (simp_all add: rd_u32_update_outside rd_s32_update_outside)
  show ?thesis
    unfolding dispatch_nl_cn_def dispatch_proc_event_def eqs by (rule refl)
qed

lemma dispatch_nl_update_len:
  assumes "i < h + nlmsg_type_off"
  shows "dispatch_nl pf fl fs (buf[i := v]) h g = dispatch_nl pf fl fs buf h g"
proof -
  have t: "rd_u16 pf (buf[i := v]) (h + nlmsg_type_off) = rd_u16 pf buf (h + nlmsg_type_off)"
    using assms by (simp add: rd_u16_update_outside)
  have "i < h + NLMSG_HDRLEN"
    using assms by (simp add: layout_defs)
  then have c: "dispatch_nl_cn pf fl fs (buf[i := v]) (h + NLMSG_HDRLEN) g =
      dispatch_nl_cn pf fl fs buf (h + NLMSG_HDRLEN) g"
    by (rule dispatch_nl_cn_update_before)
  show ?thesis
    unfolding dispatch_nl_def t c by (rule refl)
qed

lemma dispatch_nl_ignores_len:
  "dispatch_nl pf fl fs
     (buf[h + nlmsg_len_off := a, h + nlmsg_len_off + 1 := b, h + nlmsg_len_off + 2 := c,
          h + nlmsg_len_off + 3 := d]) h g =
   dispatch_nl pf fl fs buf h g"
  by (simp add: dispatch_nl_update_len layout_defs)

lemma frame_extent_values:
  "frame_extent pf fl buf h \<in> {6, 20, 24, 40, 60, 68}"
  by (auto simp: frame_extent_def cn_extent_def payload_extent_def layout_defs
      split: sum.splits)

text \<open>
  Claim C6, amended. For a receive buffer and a byte count within it, the loop of \<^verbatim>\<open>main\<close>
  returns and does what dispatching the valid frames in order does. Every frame it
  dispatches had at least a header's worth of bytes remaining and a declared length of at
  least the header size and at most the bytes remaining. At a frame that fails the check
  the loop returns with the state as it is: no frame at or after it is dispatched and
  nothing is printed. The bytes from an offset \<open>m\<close> on are left uninterpreted provided the
  reads of every dispatched frame end by \<open>m\<close>. \<^verbatim>\<open>dispatch_nl\<close> does not consult
  \<^verbatim>\<open>nlmsg_len\<close>: changing its bytes changes nothing. Its reads extend exactly to the
  frame's extent, and on a buffer cut before it a read leaves the buffer.
\<close>

theorem nl_loop_frame_iteration:
  assumes "int hdr + remain \<le> int (length buf)" and "length buf + 3 < 2 ^ 32"
  shows "nl_loop pf fl fs buf hdr remain g =
           Some (dispatch_frames pf fl fs buf (nl_frames pf buf hdr remain) g)
       \<and> (\<forall>h \<in> set (nl_frames pf buf hdr remain).
            \<exists>l. rd_u32 pf buf (h + nlmsg_len_off) = Inr l \<and> NLMSG_HDRLEN \<le> l \<and>
                int h + int l \<le> int hdr + remain)
       \<and> (remain < int NLMSG_HDRLEN \<or>
           (\<exists>l. rd_u32 pf buf (hdr + nlmsg_len_off) = Inr l \<and>
                (l < NLMSG_HDRLEN \<or> remain < int l)) \<longrightarrow>
          nl_loop pf fl fs buf hdr remain g = Some (Inr g))
       \<and> (\<forall>m. m \<le> length buf \<and>
              (\<forall>h \<in> set (nl_frames pf buf hdr remain). h + frame_extent pf fl buf h \<le> m) \<longrightarrow>
              dispatch_frames pf fl fs (take m buf) (nl_frames pf buf hdr remain) g =
                dispatch_frames pf fl fs buf (nl_frames pf buf hdr remain) g)
       \<and> (\<forall>h m. m \<le> length buf \<and> m < h + frame_extent pf fl buf h \<longrightarrow>
              (\<exists>k. dispatch_nl pf fl fs (take m buf) h g = Inl (RcvbufOutOfBounds k)))
       \<and> (\<forall>h b0 b1 b2 b3.
              dispatch_nl pf fl fs
                (buf[h + nlmsg_len_off := b0, h + nlmsg_len_off + 1 := b1,
                     h + nlmsg_len_off + 2 := b2, h + nlmsg_len_off + 3 := b3]) h g =
              dispatch_nl pf fl fs buf h g)"
proof -
  have a: "nl_loop pf fl fs buf hdr remain g =
      Some (dispatch_frames pf fl fs buf (nl_frames pf buf hdr remain) g)"
    using assms by (rule nl_loop_is_dispatch_frames)
  have b: "\<forall>h \<in> set (nl_frames pf buf hdr remain).
      \<exists>l. rd_u32 pf buf (h + nlmsg_len_off) = Inr l \<and> NLMSG_HDRLEN \<le> l \<and>
          int h + int l \<le> int hdr + remain"
    using nl_frames_valid [of _ pf buf hdr remain] by blast
  have c: "remain < int NLMSG_HDRLEN \<or>
      (\<exists>l. rd_u32 pf buf (hdr + nlmsg_len_off) = Inr l \<and> (l < NLMSG_HDRLEN \<or> remain < int l)) \<longrightarrow>
      nl_loop pf fl fs buf hdr remain g = Some (Inr g)"
    using a nl_frames_stop [of remain pf buf hdr] by auto
  have d: "\<forall>m. m \<le> length buf \<and>
      (\<forall>h \<in> set (nl_frames pf buf hdr remain). h + frame_extent pf fl buf h \<le> m) \<longrightarrow>
      dispatch_frames pf fl fs (take m buf) (nl_frames pf buf hdr remain) g =
        dispatch_frames pf fl fs buf (nl_frames pf buf hdr remain) g"
    using dispatch_frames_take_extent [of "nl_frames pf buf hdr remain" pf fl buf _ fs g] by blast
  have e: "\<forall>h m. m \<le> length buf \<and> m < h + frame_extent pf fl buf h \<longrightarrow>
      (\<exists>k. dispatch_nl pf fl fs (take m buf) h g = Inl (RcvbufOutOfBounds k))"
    using dispatch_nl_cut_fault [of _ _ pf fl buf fs g] by blast
  have f: "\<forall>h b0 b1 b2 b3.
      dispatch_nl pf fl fs
        (buf[h + nlmsg_len_off := b0, h + nlmsg_len_off + 1 := b1,
             h + nlmsg_len_off + 2 := b2, h + nlmsg_len_off + 3 := b3]) h g =
      dispatch_nl pf fl fs buf h g"
    using dispatch_nl_ignores_len [of pf fl fs buf _ _ _ _ _ g] by blast
  from a b c d e f show ?thesis by blast
qed
text \<open>
  A datagram of 32 bytes: an overrun frame, then a frame that declares 100 bytes where 16
  remain. The loop prints the overrun line and stops at the second frame, and the
  dispatch of the overrun frame reads nothing of the second. A data frame of 16 bytes has
  an extent beyond its end.
\<close>

theorem nl_loop_frame_iteration_witness:
  "int 0 + 32 \<le> int (length (nl_hdr_overrun @ nl_hdr_declares100))
   \<and> length (nl_hdr_overrun @ nl_hdr_declares100) + 3 < (2::nat) ^ 32
   \<and> nl_frames x86_64 (nl_hdr_overrun @ nl_hdr_declares100) 0 32 = [0]
   \<and> nl_loop x86_64 only_fork fs_none (nl_hdr_overrun @ nl_hdr_declares100) 0 32 init_globals =
       Some (Inr (init_globals\<lparr>stdout := ''overrun'' @ [NEWLINE]\<rparr>))
   \<and> nl_loop x86_64 only_fork fs_none (nl_hdr_overrun @ nl_hdr_declares100) 16 16 init_globals =
       Some (Inr init_globals)
   \<and> 0 + frame_extent x86_64 only_fork (nl_hdr_overrun @ nl_hdr_declares100) 0 \<le> 16
   \<and> dispatch_frames x86_64 only_fork fs_none (take 16 (nl_hdr_overrun @ nl_hdr_declares100)) [0]
       init_globals =
       Inr (init_globals\<lparr>stdout := ''overrun'' @ [NEWLINE]\<rparr>)
   \<and> 16 < 0 + frame_extent x86_64 only_fork (nl_hdr_done16 @ cn_hdr_len40 @ pe_fork_10_20) 0
   \<and> (\<exists>k. dispatch_nl x86_64 only_fork fs_none
         (take 16 (nl_hdr_done16 @ cn_hdr_len40 @ pe_fork_10_20)) 0 init_globals =
         Inl (RcvbufOutOfBounds k))"
proof -
  let ?buf = "nl_hdr_overrun @ nl_hdr_declares100"
  let ?B = "nl_hdr_done16 @ cn_hdr_len40 @ pe_fork_10_20"
  have len: "int 0 + 32 \<le> int (length ?buf)" "int 16 + 16 \<le> int (length ?buf)"
    "length ?buf + 3 < (2::nat) ^ 32"
    by (simp_all add: nl_hdr_overrun_def nl_hdr_declares100_def)
  have lenB: "int 0 + 76 \<le> int (length ?B)" "length ?B + 3 < (2::nat) ^ 32"
    "(16::nat) \<le> length ?B"
    by (simp_all add: nl_hdr_done16_def cn_hdr_len40_def pe_fork_10_20_def)
  have r0: "rd_u32 x86_64 ?buf (0 + nlmsg_len_off) = Inr 16"
    and r1: "rd_u32 x86_64 ?buf (16 + nlmsg_len_off) = Inr 100"
    and t0: "rd_u16 x86_64 ?buf (0 + nlmsg_type_off) = Inr NLMSG_OVERRUN"
    by (simp_all add: rd_eval layout_defs nl_hdr_overrun_def nl_hdr_declares100_def)
  have f1: "nl_frames x86_64 ?buf 16 16 = []"
    using r1 by (subst nl_frames.simps) (simp add: NLMSG_HDRLEN_def)
  have f0: "nl_frames x86_64 ?buf 0 32 = [0]"
    using r0 f1 by (subst nl_frames.simps) (simp add: NLMSG_HDRLEN_def NLMSG_ALIGN_def)
  have d: "dispatch_nl x86_64 only_fork fs_none ?buf 0 init_globals =
      Inr (init_globals\<lparr>stdout := ''overrun'' @ [NEWLINE]\<rparr>)"
    using t0 by (simp add: dispatch_nl_def layout_defs init_globals_def)
  have x0: "0 + frame_extent x86_64 only_fork ?buf 0 \<le> 16"
    using t0 by (simp add: frame_extent_def layout_defs)
  have xB: "16 < 0 + frame_extent x86_64 only_fork ?B 0"
    by (simp add: frame_extent_def cn_extent_def payload_extent_def rd_eval layout_defs
        nl_hdr_done16_def cn_hdr_len40_def pe_fork_10_20_def only_fork_def)
  note i1 = nl_loop_frame_iteration [OF len(1) len(3), of x86_64 only_fork fs_none init_globals]
  note i2 = nl_loop_frame_iteration [OF len(2) len(3), of x86_64 only_fork fs_none init_globals]
  note i3 = nl_loop_frame_iteration [OF lenB(1) lenB(2), of x86_64 only_fork fs_none init_globals]
  from i1 f0 d have a: "nl_loop x86_64 only_fork fs_none ?buf 0 32 init_globals =
      Some (Inr (init_globals\<lparr>stdout := ''overrun'' @ [NEWLINE]\<rparr>))"
    by (simp add: dispatch_frames_single)
  from i2 f1 have b: "nl_loop x86_64 only_fork fs_none ?buf 16 16 init_globals =
      Some (Inr init_globals)"
    by simp
  from i1 have "16 \<le> length ?buf \<and> (\<forall>h \<in> set (nl_frames x86_64 ?buf 0 32).
        h + frame_extent x86_64 only_fork ?buf h \<le> 16) \<longrightarrow>
      dispatch_frames x86_64 only_fork fs_none (take 16 ?buf) (nl_frames x86_64 ?buf 0 32)
        init_globals =
      dispatch_frames x86_64 only_fork fs_none ?buf (nl_frames x86_64 ?buf 0 32) init_globals"
    by blast
  with f0 x0 d have c: "dispatch_frames x86_64 only_fork fs_none (take 16 ?buf) [0] init_globals =
      Inr (init_globals\<lparr>stdout := ''overrun'' @ [NEWLINE]\<rparr>)"
    by (simp add: dispatch_frames_single nl_hdr_overrun_def nl_hdr_declares100_def)
  from i3 lenB(3) xB have e: "\<exists>k. dispatch_nl x86_64 only_fork fs_none (take 16 ?B) 0
      init_globals = Inl (RcvbufOutOfBounds k)"
    by blast
  from len(1,3) f0 a b x0 c xB e show ?thesis
    by blast
qed

text \<open>
  Claim C6 as stated fails. A datagram of 76 bytes starts with a valid data frame of
  declared length 16; the frame after it declares 1 byte and fails the check, so the
  iteration stops there. The dispatch of the first frame has read the connector message and
  the Fork event out of the bytes from offset 16 on, and printed the record: on the
  buffer cut at the end of the valid frame the same dispatch reads outside.
\<close>

theorem nl_loop_interprets_rest_counterexample:
  "nl_frames x86_64 (nl_hdr_done16 @ cn_hdr_len40 @ pe_fork_10_20) 0 76 = [0]
   \<and> rd_u32 x86_64 (nl_hdr_done16 @ cn_hdr_len40 @ pe_fork_10_20) (16 + nlmsg_len_off) = Inr 1
   \<and> map_option (map_sum id stdout)
       (nl_loop x86_64 only_fork fs_none (nl_hdr_done16 @ cn_hdr_len40 @ pe_fork_10_20) 0 76
          init_globals) =
       Some (Inr (''Fork 10 20 <N/A>'' @ [NEWLINE]))
   \<and> dispatch_frames x86_64 only_fork fs_none
       (take 16 (nl_hdr_done16 @ cn_hdr_len40 @ pe_fork_10_20)) [0] init_globals =
       Inl (RcvbufOutOfBounds 16)"
proof -
  let ?B = "nl_hdr_done16 @ cn_hdr_len40 @ pe_fork_10_20"
  have s: "show_int 10 = ''10''" "show_int 20 = ''20''"
    by (simp_all add: show_int_def show_nat.simps)
  have lenB: "int 0 + 76 \<le> int (length ?B)" "length ?B + 3 < (2::nat) ^ 32"
    by (simp_all add: nl_hdr_done16_def cn_hdr_len40_def pe_fork_10_20_def)
  have r0: "rd_u32 x86_64 ?B (0 + nlmsg_len_off) = Inr 16"
    and r1: "rd_u32 x86_64 ?B (16 + nlmsg_len_off) = Inr 1"
    by (simp_all add: rd_eval layout_defs nl_hdr_done16_def cn_hdr_len40_def pe_fork_10_20_def)
  have f1: "nl_frames x86_64 ?B 16 60 = []"
    using r1 by (subst nl_frames.simps) (simp add: NLMSG_HDRLEN_def)
  have f0: "nl_frames x86_64 ?B 0 76 = [0]"
    using r0 f1 by (subst nl_frames.simps) (simp add: NLMSG_HDRLEN_def NLMSG_ALIGN_def)
  have d: "map_sum id stdout (dispatch_nl x86_64 only_fork fs_none ?B 0 init_globals) =
      Inr (''Fork 10 20 <N/A>'' @ [NEWLINE])"
    by (simp add: dispatch_nl_def dispatch_nl_cn_def dispatch_proc_event_def rd_eval layout_defs
        nl_hdr_done16_def cn_hdr_len40_def pe_fork_10_20_def only_fork_def
        printf_cmdline_open_fails fs_none_def init_globals_def s)
  have l: "nl_loop x86_64 only_fork fs_none ?B 0 76 init_globals =
      Some (dispatch_frames x86_64 only_fork fs_none ?B (nl_frames x86_64 ?B 0 76) init_globals)"
    using lenB by (rule nl_loop_is_dispatch_frames)
  have "dispatch_nl x86_64 only_fork fs_none (take 16 ?B) 0 init_globals =
      Inl (RcvbufOutOfBounds 16)"
    by (simp add: dispatch_nl_def dispatch_nl_cn_def rd_eval layout_defs
        nl_hdr_done16_def cn_hdr_len40_def pe_fork_10_20_def)
  then have c: "dispatch_frames x86_64 only_fork fs_none (take 16 ?B) [0] init_globals =
      Inl (RcvbufOutOfBounds 16)"
    by (simp only: dispatch_frames_single)
  have "nl_loop x86_64 only_fork fs_none ?B 0 76 init_globals =
      Some (dispatch_nl x86_64 only_fork fs_none ?B 0 init_globals)"
    using l by (simp only: f0 dispatch_frames_single)
  then have o: "map_option (map_sum id stdout)
      (nl_loop x86_64 only_fork fs_none ?B 0 76 init_globals) =
      Some (Inr (''Fork 10 20 <N/A>'' @ [NEWLINE]))"
    using d by simp
  from f0 r1 o c show ?thesis
    by blast
qed

text \<open>
  Claim C10. A datagram whose sender address has a nonzero \<^verbatim>\<open>nl_pid\<close> is skipped: the
  round returns with the state as it was, whatever the buffer holds, and the rounds
  that follow start from that state.
\<close>

theorem receive_round_skips_foreign_sender:
  assumes "nl_pid r \<noteq> 0"
  shows "receive_round pf fl fs r g = Some (Inr g)
       \<and> receive_rounds pf fl fs (r # rs) g = receive_rounds pf fl fs rs g"
  using assms by (simp add: receive_round_def)

theorem receive_round_skips_foreign_sender_witness:
  "nl_pid \<lparr>nl_pid = 4321, rcvbuf = nl_hdr_overrun, bcount = 16\<rparr> \<noteq> 0
   \<and> receive_round x86_64 only_fork fs_none
       \<lparr>nl_pid = 4321, rcvbuf = nl_hdr_overrun, bcount = 16\<rparr> init_globals =
       Some (Inr init_globals)
   \<and> receive_rounds x86_64 only_fork fs_none
       [\<lparr>nl_pid = 4321, rcvbuf = nl_hdr_overrun, bcount = 16\<rparr>] init_globals =
       Some (Inr init_globals)"
  using receive_round_skips_foreign_sender
    [of "\<lparr>nl_pid = 4321, rcvbuf = nl_hdr_overrun, bcount = 16\<rparr>"
        x86_64 only_fork fs_none init_globals "[]"]
  by simp

end
